theory Spec2Isabelle
  imports Complex_Main
begin

section \<open>Port allocator (findFreePorts.js)\<close>

text \<open>
  Ports are JavaScript numbers; the allocator only compares them, adds one and takes a
  maximum, so they are modelled as unbounded integers. An option field or argument that
  is \<open>None\<close> stands for JavaScript's \<open>undefined\<close> (the property was not passed).

  \<open>isPortFree(port, host)\<close> binds a server socket and resolves to \<open>true\<close> or
  \<open>false\<close>. It is the only contact with the operating system, so the allocator takes
  it as a parameter: a fixed function from port and host to the probe's answer, which is
  the model in which the status of each port does not change during one call.
\<close>

type_synonym port = int

type_synonym probe = "port \<Rightarrow> string \<Rightarrow> bool"

datatype alloc_error = NoFreePortError port port
  \<comment> \<open>\<open>Error("No free port found in range start-end")\<close>\<close>

definition dflt :: "'a \<Rightarrow> 'a option \<Rightarrow> 'a" where
  \<comment> \<open>a destructuring default, or \<open>x ?? d\<close>\<close>
  "dflt d x = (case x of None \<Rightarrow> d | Some v \<Rightarrow> v)"

text \<open>The \<open>for\<close> loop of \<open>findFreePort\<close>: \<open>None\<close> when it runs past \<open>end\<close>.\<close>

function scanPorts :: "probe \<Rightarrow> string \<Rightarrow> port \<Rightarrow> port \<Rightarrow> port option" where
  "scanPorts isPortFree host p endPort =
     (if p \<le> endPort
      then (if isPortFree p host then Some p
            else scanPorts isPortFree host (p + 1) endPort)
      else None)"
  by pat_completeness auto
termination
  by (relation "measure (\<lambda>(isPortFree, host, p, endPort). nat (endPort + 1 - p))") auto

declare scanPorts.simps [simp del]

definition findFreePort ::
  "probe \<Rightarrow> port option \<Rightarrow> string option \<Rightarrow> port option \<Rightarrow> port option
     \<Rightarrow> alloc_error + port" where
  "findFreePort isPortFree preferred host rangeStart rangeEnd =
     (let h = dflt ''127.0.0.1'' host;
          start = dflt 3000 rangeStart;
          endPort = dflt 3999 rangeEnd;
          scan = (case scanPorts isPortFree h start endPort of
                    Some p \<Rightarrow> Inr p
                  | None \<Rightarrow> Inl (NoFreePortError start endPort))
      in case preferred of
           None \<Rightarrow> scan
         | Some pref \<Rightarrow>
             \<comment> \<open>\<open>if (preferred)\<close>: the number 0 is falsy and skips the probe\<close>
             if pref \<noteq> 0 \<and> isPortFree pref h then Inr pref else scan)"

record options =
  host :: "string option"
  preferredBackendPort :: "port option"
  preferredFrontendPort :: "port option"
  backendRangeStart :: "port option"
  backendRangeEnd :: "port option"
  frontendRangeStart :: "port option"
  frontendRangeEnd :: "port option"

record PortAssignment =
  backendPort :: port
  frontendPort :: port

definition findFreePorts :: "probe \<Rightarrow> options \<Rightarrow> alloc_error + PortAssignment" where
  "findFreePorts isPortFree opts =
     (let h = dflt ''127.0.0.1'' (host opts);
          pb = dflt 3005 (preferredBackendPort opts);
          pf = dflt 3000 (preferredFrontendPort opts);
          bs = dflt 3001 (backendRangeStart opts);
          be = dflt 3999 (backendRangeEnd opts);
          fs = dflt 3000 (frontendRangeStart opts);
          fe = dflt 4999 (frontendRangeEnd opts)
      in case findFreePort isPortFree (Some pb) (Some h) (Some bs) (Some be) of
           Inl e \<Rightarrow> Inl e
         | Inr b \<Rightarrow>
             (case findFreePort isPortFree (Some pf) (Some h) (Some fs) (Some fe) of
                Inl e \<Rightarrow> Inl e
              | Inr f \<Rightarrow>
                  if f = b
                  then (case findFreePort isPortFree None (Some h)
                               (Some (max fs (b + 1))) (Some fe) of
                          Inl e \<Rightarrow> Inl e
                        | Inr f' \<Rightarrow> Inr \<lparr>backendPort = b, frontendPort = f'\<rparr>)
                  else Inr \<lparr>backendPort = b, frontendPort = f\<rparr>))"

text \<open>
  \<open>lowestFree isPortFree h lo hi excl p\<close>: \<open>p\<close> is the lowest port of \<open>lo..hi\<close> that
  is free and not in \<open>excl\<close>.
\<close>

definition lowestFree :: "probe \<Rightarrow> string \<Rightarrow> port \<Rightarrow> port \<Rightarrow> port set \<Rightarrow> port \<Rightarrow> bool" where
  "lowestFree isPortFree h lo hi excl p \<longleftrightarrow>
     lo \<le> p \<and> p \<le> hi \<and> isPortFree p h \<and> p \<notin> excl \<and>
     (\<forall>q \<in> {lo..<p}. isPortFree q h \<longrightarrow> q \<in> excl)"

section \<open>Process supervisor and port reclamation (start-dev script)\<close>

text \<open>
  The script acts on the outside world only by logging, spawning processes, signalling
  its children, waiting on timers, polling the backend over HTTP and exiting. Each
  function of the model returns the list of these effects in the order the script
  performs them. What the world answers (the platform, the output of a spawned lookup
  command, the result of a health probe, the process ids of the children) is a
  parameter. The forwarding of the children's output to the console runs concurrently
  with everything else and is left out.
\<close>

datatype color = reset | bright | red | green | blue | cyan | yellow

datatype event =
    Log string string color
      \<comment> \<open>\<open>log(prefix, message, color)\<close>\<close>
  | Spawn string "string list" "(string \<times> string) list"
      \<comment> \<open>\<open>spawn(command, args, {env: {...process.env, ...}})\<close>: command, arguments
         and the variables added to the environment; the options \<open>cwd\<close>, \<open>stdio\<close> and
         \<open>shell\<close> are left out\<close>
  | ChildKill nat string
      \<comment> \<open>\<open>child.kill(signal)\<close> on the child with this pid\<close>
  | Sleep nat
      \<comment> \<open>a \<open>setTimeout\<close> of that many milliseconds that the script waits for\<close>
  | HttpGet string
      \<comment> \<open>\<open>axios.get(url)\<close>\<close>
  | Exit nat
      \<comment> \<open>\<open>process.exit(code)\<close>\<close>

text \<open>The state of a promise when nothing more will happen to it.\<close>

datatype outcome = Resolved | Rejected string | Pending

subsection \<open>Strings\<close>

text \<open>
  A \<open>char\<close> is a code unit below 256. \<open>isSpace\<close> is what \<open>trim\<close> and the white-space
  class of a regular expression treat as white space in that range.
\<close>

definition isSpace :: "char \<Rightarrow> bool" where
  "isSpace c \<longleftrightarrow> c \<in> {CHR 0x09, CHR 0x0A, CHR 0x0B, CHR 0x0C, CHR 0x0D, CHR 0x20, CHR 0xA0}"

definition trim :: "string \<Rightarrow> string" where
  "trim s = rev (dropWhile isSpace (rev (dropWhile isSpace s)))"

definition digitChar :: "nat \<Rightarrow> char" where
  "digitChar d = ''0123456789'' ! (d mod 10)"

function showNat :: "nat \<Rightarrow> string" where
  "showNat n = (if n < 10 then [digitChar n] else showNat (n div 10) @ [digitChar (n mod 10)])"
  by pat_completeness auto
termination
  by (relation "measure id") auto

declare showNat.simps [simp del]

definition showInt :: "int \<Rightarrow> string" where
  \<comment> \<open>\<open>String(n)\<close> and \<open>`${n}`\<close> for an integral number\<close>
  "showInt i = (if i < 0 then CHR ''-'' # showNat (nat (- i)) else showNat (nat i))"

fun splitNewline :: "string \<Rightarrow> string \<Rightarrow> string list" where
  \<comment> \<open>\<open>s.split\<close> at the line feed, the first argument holding the current piece
     reversed\<close>
  "splitNewline cur [] = [rev cur]"
| "splitNewline cur (c # cs) =
     (if c = CHR 0x0A then rev cur # splitNewline [] cs else splitNewline (c # cur) cs)"

function splitSpaces :: "string \<Rightarrow> string \<Rightarrow> string list" where
  \<comment> \<open>\<open>s.split\<close> at every run of white space, the first argument holding the current
     piece reversed\<close>
  "splitSpaces cur [] = [rev cur]"
| "splitSpaces cur (c # cs) =
     (if isSpace c then rev cur # splitSpaces [] (dropWhile isSpace cs)
      else splitSpaces (c # cur) cs)"
  by pat_completeness auto
termination
  by (relation "measure (\<lambda>(cur, s). length s)")
     (auto simp: le_imp_less_Suc length_dropWhile_le)

fun includesStr :: "string \<Rightarrow> string \<Rightarrow> bool" where
  \<comment> \<open>\<open>s.includes(sub)\<close>\<close>
  "includesStr sub [] = (sub = [])"
| "includesStr sub (c # cs) = (take (length sub) (c # cs) = sub \<or> includesStr sub cs)"

fun matchesThenSpace :: "string \<Rightarrow> string \<Rightarrow> bool" where
  \<comment> \<open>the test of the regular expression that is \<open>pat\<close> followed by one white-space
     character, for a pattern of literal characters without letters (the flag \<open>i\<close>
     changes nothing then)\<close>
  "matchesThenSpace pat [] = False"
| "matchesThenSpace pat (c # cs) =
     ((take (length pat) (c # cs) = pat \<and>
       (case drop (length pat) (c # cs) of [] \<Rightarrow> False | d # _ \<Rightarrow> isSpace d))
      \<or> matchesThenSpace pat cs)"

subsection \<open>killChildTree\<close>

record child =
  pid :: nat
  killed :: bool

text \<open>
  \<open>None\<close> is a child that is \<open>undefined\<close>. \<open>child.kill\<close> also sets \<open>child.killed\<close>
  when the signal was delivered; no caller reads the flag afterwards, so the model
  returns the effects only.
\<close>

definition killChildTree :: "string \<Rightarrow> child option \<Rightarrow> event list" where
  "killChildTree platform c =
     (case c of
        None \<Rightarrow> []
      | Some ch \<Rightarrow>
          if killed ch then []
          else if platform = ''win32''
          then [Spawn ''taskkill'' [''/PID'', showNat (pid ch), ''/T'', ''/F''] []]
          else [ChildKill (pid ch) ''SIGTERM''])"

subsection \<open>killProcessOnPort\<close>

text \<open>
  One run of a spawned lookup command (\<open>lsof\<close> or \<open>netstat\<close>), as its event handlers see
  it: the \<open>data\<close> chunks of its standard output, then how it ended. \<open>SpawnError\<close> is the
  \<open>error\<close> event of a command that could not be started, \<open>Close code\<close> the \<open>close\<close>
  event (the code is \<open>None\<close> for \<open>null\<close>: ended by a signal), and \<open>NeverCloses\<close> a
  command that hangs, so that neither event ever comes.
\<close>

datatype child_end = SpawnError | Close "int option" | NeverCloses

record child_run =
  chunks :: "string list"
  ending :: child_end

text \<open>
  The loop over the lines of \<open>netstat -ano\<close>. \<open>isNaN\<close> is JavaScript's built-in, taken
  as a parameter. \<open>splitSpaces\<close> never returns the empty list, so \<open>last\<close> is the
  element \<open>parts[parts.length - 1]\<close>.
\<close>

fun findListener :: "(string \<Rightarrow> bool) \<Rightarrow> port \<Rightarrow> string list \<Rightarrow> string option" where
  "findListener isNaN p [] = None"
| "findListener isNaN p (line # rest) =
     (if matchesThenSpace (CHR '':'' # showInt p) line \<and> includesStr ''LISTENING'' line
      then (let parts = splitSpaces [] (trim line);
                pidStr = last parts
            in if pidStr \<noteq> [] \<and> \<not> isNaN pidStr then Some pidStr
               else findListener isNaN p rest)
      else findListener isNaN p rest)"

definition killProcessOnPort ::
  "string \<Rightarrow> (string \<Rightarrow> bool) \<Rightarrow> child_run \<Rightarrow> port \<Rightarrow> event list \<times> outcome" where
  "killProcessOnPort platform isNaN run p =
     (if platform = ''win32''
      then
        (let output = concat (chunks run)
         in case ending run of
              SpawnError \<Rightarrow> ([Spawn ''netstat'' [''-ano''] []], Resolved)
            | NeverCloses \<Rightarrow> ([Spawn ''netstat'' [''-ano''] []], Pending)
            | Close code \<Rightarrow>
                (case findListener isNaN p (splitNewline [] output) of
                   Some pidStr \<Rightarrow>
                     ([Spawn ''netstat'' [''-ano''] [],
                       Log ''CLEANUP''
                         (''Killing process '' @ pidStr @ '' on port '' @ showInt p) yellow,
                       Spawn ''taskkill'' [''/F'', ''/PID'', pidStr] [],
                       Sleep 1000], Resolved)
                 | None \<Rightarrow> ([Spawn ''netstat'' [''-ano''] []], Resolved)))
      else
        (let pidStr = concat (map trim (chunks run))
         in case ending run of
              SpawnError \<Rightarrow> ([Spawn ''lsof'' [''-ti'', ''tcp:'' @ showInt p] []], Resolved)
            | NeverCloses \<Rightarrow> ([Spawn ''lsof'' [''-ti'', ''tcp:'' @ showInt p] []], Pending)
            | Close code \<Rightarrow>
                if code = Some 0 \<and> pidStr \<noteq> []
                then ([Spawn ''lsof'' [''-ti'', ''tcp:'' @ showInt p] [],
                       Log ''CLEANUP''
                         (''Killing process '' @ pidStr @ '' on port '' @ showInt p) yellow,
                       Spawn ''kill'' [''-9'', pidStr] [],
                       Sleep 1000], Resolved)
                else ([Spawn ''lsof'' [''-ti'', ''tcp:'' @ showInt p] []], Resolved)))"

subsection \<open>waitForBackend\<close>

text \<open>
  \<open>health i\<close> tells whether the GET of attempt \<open>i\<close> succeeds; a refused connection
  and an error status both make \<open>axios.get\<close> throw.
\<close>

function waitLoop :: "(nat \<Rightarrow> bool) \<Rightarrow> string \<Rightarrow> nat \<Rightarrow> nat \<Rightarrow> event list \<times> bool" where
  "waitLoop health url i maxRetries =
     (if i < maxRetries
      then (if health i
            then ([HttpGet (url @ ''/api/status''),
                   Log ''STARTUP'' ''Backend is ready!'' green], True)
            else (let rest = waitLoop health url (i + 1) maxRetries
                  in ([HttpGet (url @ ''/api/status'')]
                      @ (if i = 0
                         then [Log ''STARTUP'' ''Waiting for backend to start...'' cyan]
                         else [])
                      @ [Sleep 1000] @ fst rest, snd rest)))
      else ([Log ''STARTUP'' ''Backend failed to start within 30 seconds'' red], False))"
  by pat_completeness auto
termination
  by (relation "measure (\<lambda>(health, url, i, maxRetries). maxRetries - i)") auto

declare waitLoop.simps [simp del]

definition waitForBackend :: "(nat \<Rightarrow> bool) \<Rightarrow> string \<Rightarrow> nat option \<Rightarrow> event list \<times> bool" where
  "waitForBackend health BACKEND_URL maxRetries =
     waitLoop health BACKEND_URL 0 (dflt 30 maxRetries)"

subsection \<open>startServices\<close>

text \<open>
  What the world answers during one run of the script. \<open>lookupRuns w n\<close> is the run of
  the \<open>n\<close>-th lookup command that the script spawns (0 and 1 at start-up, 2 and 3 at
  shutdown).
\<close>

record world =
  processPlatform :: string
  jsIsNaN :: "string \<Rightarrow> bool"
  portProbe :: probe
  lookupRuns :: "nat \<Rightarrow> child_run"
  healthProbe :: "nat \<Rightarrow> bool"
  backendPid :: nat
  frontendPid :: nat
  hostIPs :: "string list"

text \<open>The variables that \<open>shutdown\<close> closes over.\<close>

record supervisor =
  BACKEND_PORT :: port
  FRONTEND_PORT :: port
  backend :: child
  frontend :: child
  shuttingDown :: bool

text \<open>
  How \<open>startServices\<close> leaves the process: exited with a code, waiting for ever on a
  promise that does not settle, or running with both children up.
\<close>

datatype run_state = Exited nat | Blocked | Running supervisor

definition errorMessage :: "alloc_error \<Rightarrow> string" where
  "errorMessage e =
     (case e of NoFreePortError s t \<Rightarrow>
        ''No free port found in range '' @ showInt s @ ''-'' @ showInt t)"

definition startupFailed :: "string \<Rightarrow> event list" where
  \<comment> \<open>the handler of \<open>startServices().catch\<close>\<close>
  "startupFailed message = [Log ''STARTUP'' (''Error: '' @ message) red, Exit 1]"

definition urlLogs :: "string list \<Rightarrow> port \<Rightarrow> port \<Rightarrow> string \<Rightarrow> event list" where
  "urlLogs ips bp fp BACKEND_URL =
     [Log ''STARTUP'' ''Both services are running!'' bright,
      Log ''STARTUP'' ''Frontend URLs:'' green,
      Log ''STARTUP'' (''  Local:    http://localhost:'' @ showInt fp) green]
     @ map (\<lambda>ip. Log ''STARTUP'' (''  Network:  http://'' @ ip @ '':'' @ showInt fp) green) ips
     @ [Log ''STARTUP'' ''Backend URLs:'' blue,
        Log ''STARTUP'' (''  Local:    http://localhost:'' @ showInt bp) blue]
     @ map (\<lambda>ip. Log ''STARTUP'' (''  Network:  http://'' @ ip @ '':'' @ showInt bp) blue) ips
     @ [Log ''STARTUP'' [] reset,
        Log ''STARTUP'' ''Ports are chosen automatically each run (no .env ports).'' yellow,
        Log ''STARTUP'' (''Frontend will call backend at: '' @ BACKEND_URL) yellow,
        Log ''STARTUP'' [] reset,
        Log ''STARTUP'' ''Press Ctrl+C to stop both services'' cyan]"

text \<open>The part of \<open>startServices\<close> from the spawn of the backend on.\<close>

definition startChildren :: "world \<Rightarrow> port \<Rightarrow> port \<Rightarrow> event list \<times> run_state" where
  "startChildren w bp fp =
     (let BACKEND_URL = ''http://localhost:'' @ showInt bp;
          spawnBackend =
            [Log ''BACKEND'' ''Starting backend server...'' blue,
             Spawn ''npm'' [''run'', ''dev'']
               [(''BACKEND_PORT'', showInt bp),
                (''FRONT_END_URL'', ''http://localhost:'' @ showInt fp)]];
          waited = waitForBackend (healthProbe w) BACKEND_URL None
      in if \<not> snd waited
         then (spawnBackend @ fst waited
               @ [Log ''STARTUP'' ''Failed to start backend, aborting...'' red,
                  ChildKill (backendPid w) ''SIGTERM'',
                  Exit 1], Exited 1)
         else (spawnBackend @ fst waited
               @ [Log ''FRONTEND'' ''Starting frontend...'' green,
                  Spawn ''npm'' [''start'']
                    [(''PORT'', showInt fp),
                     (''BACKEND_PORT'', showInt bp),
                     (''REACT_APP_BACKEND_URL'', BACKEND_URL),
                     (''REACT_APP_API_BASE_URL'', BACKEND_URL @ ''/api'')]]
               @ urlLogs (hostIPs w) bp fp BACKEND_URL,
               Running \<lparr>BACKEND_PORT = bp, FRONTEND_PORT = fp,
                        backend = \<lparr>pid = backendPid w, killed = False\<rparr>,
                        frontend = \<lparr>pid = frontendPid w, killed = False\<rparr>,
                        shuttingDown = False\<rparr>))"

definition startOptions :: options where
  \<comment> \<open>the options that \<open>startServices\<close> passes to \<open>findFreePorts\<close>\<close>
  "startOptions =
     \<lparr>host = None, preferredBackendPort = Some 3005, preferredFrontendPort = Some 3000,
      backendRangeStart = None, backendRangeEnd = None,
      frontendRangeStart = None, frontendRangeEnd = None\<rparr>"

definition startServices :: "world \<Rightarrow> event list \<times> run_state" where
  "startServices w =
     (let starting = [Log ''STARTUP'' ''Starting SnapTrade Admin Panel...'' bright]
      in case findFreePorts (portProbe w) startOptions of
           Inl e \<Rightarrow> (starting @ startupFailed (errorMessage e), Exited 1)
         | Inr pa \<Rightarrow>
             (let bp = backendPort pa;
                  fp = frontendPort pa;
                  checking =
                    [Log ''CLEANUP'' ''Checking for existing processes on ports...'' cyan];
                  k1 = killProcessOnPort (processPlatform w) (jsIsNaN w) (lookupRuns w 0) bp
              in case snd k1 of
                   Pending \<Rightarrow> (starting @ checking @ fst k1, Blocked)
                 | Rejected m \<Rightarrow>
                     (starting @ checking @ fst k1 @ startupFailed m, Exited 1)
                 | Resolved \<Rightarrow>
                     (let k2 = killProcessOnPort (processPlatform w) (jsIsNaN w)
                                 (lookupRuns w 1) fp
                      in case snd k2 of
                           Pending \<Rightarrow> (starting @ checking @ fst k1 @ fst k2, Blocked)
                         | Rejected m \<Rightarrow>
                             (starting @ checking @ fst k1 @ fst k2 @ startupFailed m,
                              Exited 1)
                         | Resolved \<Rightarrow>
                             (let up = startChildren w bp fp
                              in (starting @ checking @ fst k1 @ fst k2
                                  @ [Log ''CLEANUP'' ''Port cleanup complete'' cyan]
                                  @ fst up, snd up)))))"

subsection \<open>shutdown\<close>

text \<open>
  \<open>shutdown\<close> is an async function with three awaits, and the signal handlers may call
  it again while an earlier call is waiting. The model is a machine whose state holds
  the supervisor's variables, what the running teardown is waiting for, and the effects
  so far. It takes two kinds of input: the delivery of a signal, which calls \<open>shutdown\<close>
  up to its first await, and the completion of what the teardown is waiting for, which
  runs it up to the next await. A call of \<open>killProcessOnPort\<close> contributes all its
  effects at once; a signal that arrives in the middle of it finds the latch set, as one
  that arrives after it does.
\<close>

datatype signal = SIGINT | SIGTERM

definition signalName :: "signal \<Rightarrow> string" where
  "signalName s = (case s of SIGINT \<Rightarrow> ''SIGINT'' | SIGTERM \<Rightarrow> ''SIGTERM'')"

datatype phase =
    Serving
  | AwaitGrace
  | AwaitBackendReclaim outcome
  | AwaitFrontendReclaim outcome
  | Finished nat
  | Crashed
      \<comment> \<open>an awaited promise was rejected and nothing handles the rejection\<close>

record machine =
  sup :: supervisor
  phase :: phase
  trace :: "event list"

datatype input = Deliver signal | Resume

definition shutdown :: "world \<Rightarrow> signal \<Rightarrow> machine \<Rightarrow> machine" where
  \<comment> \<open>the call of \<open>shutdown(signal)\<close> up to its first await\<close>
  "shutdown w s m =
     (if shuttingDown (sup m) then m
      else m\<lparr>sup := (sup m)\<lparr>shuttingDown := True\<rparr>,
             phase := AwaitGrace,
             trace := trace m
               @ [Log ''STARTUP'' (''Shutting down services ('' @ signalName s @ '')...'') cyan]
               @ killChildTree (processPlatform w) (Some (frontend (sup m)))
               @ killChildTree (processPlatform w) (Some (backend (sup m)))
               @ [Sleep 1500]\<rparr>)"

definition resume :: "world \<Rightarrow> machine \<Rightarrow> machine" where
  \<comment> \<open>the rest of \<open>shutdown\<close>, from one await to the next\<close>
  "resume w m =
     (case phase m of
        AwaitGrace \<Rightarrow>
          (let k = killProcessOnPort (processPlatform w) (jsIsNaN w) (lookupRuns w 2)
                     (BACKEND_PORT (sup m))
           in m\<lparr>phase := AwaitBackendReclaim (snd k), trace := trace m @ fst k\<rparr>)
      | AwaitBackendReclaim Resolved \<Rightarrow>
          (let k = killProcessOnPort (processPlatform w) (jsIsNaN w) (lookupRuns w 3)
                     (FRONTEND_PORT (sup m))
           in m\<lparr>phase := AwaitFrontendReclaim (snd k), trace := trace m @ fst k\<rparr>)
      | AwaitBackendReclaim (Rejected msg) \<Rightarrow> m\<lparr>phase := Crashed\<rparr>
      | AwaitFrontendReclaim Resolved \<Rightarrow>
          m\<lparr>phase := Finished 0,
            trace := trace m
              @ [Log ''STARTUP'' ''Shutdown complete. Ports released.'' cyan, Exit 0]\<rparr>
      | AwaitFrontendReclaim (Rejected msg) \<Rightarrow> m\<lparr>phase := Crashed\<rparr>
      | _ \<Rightarrow> m)"

definition step :: "world \<Rightarrow> machine \<Rightarrow> input \<Rightarrow> machine" where
  "step w m i =
     (case phase m of
        Finished code \<Rightarrow> m
      | Crashed \<Rightarrow> m
      | _ \<Rightarrow> (case i of Deliver s \<Rightarrow> shutdown w s m | Resume \<Rightarrow> resume w m))"

definition runMachine :: "world \<Rightarrow> machine \<Rightarrow> input list \<Rightarrow> machine" where
  "runMachine w m ins = foldl (step w) m ins"

section \<open>Response normalizer (holdings helper and admin panel)\<close>

text \<open>
  The values that \<open>JSON.parse\<close> produces, with \<open>undefined\<close> for what a missing
  property reads as. Numbers are rationals: the code only tests them for being zero.
  An object is the list of its properties, each key once.
\<close>

datatype json =
    JUndefined
  | JNull
  | JBool bool
  | JNum rat
  | JStr string
  | JArr "json list"
  | JObj "(string \<times> json) list"

datatype js_error = TypeError

fun truthy :: "json \<Rightarrow> bool" where
  "truthy JUndefined = False"
| "truthy JNull = False"
| "truthy (JBool b) = b"
| "truthy (JNum n) = (n \<noteq> 0)"
| "truthy (JStr s) = (s \<noteq> [])"
| "truthy (JArr xs) = True"
| "truthy (JObj kvs) = True"

fun isArray :: "json \<Rightarrow> bool" where
  \<comment> \<open>\<open>Array.isArray(v)\<close>\<close>
  "isArray (JArr xs) = True"
| "isArray v = False"

fun isString :: "json \<Rightarrow> bool" where
  \<comment> \<open>\<open>typeof v === "string"\<close>\<close>
  "isString (JStr s) = True"
| "isString v = False"

fun isObjectType :: "json \<Rightarrow> bool" where
  \<comment> \<open>\<open>typeof v === "object"\<close>\<close>
  "isObjectType JNull = True"
| "isObjectType (JArr xs) = True"
| "isObjectType (JObj kvs) = True"
| "isObjectType v = False"

text \<open>
  \<open>v.k\<close> throws a TypeError on \<open>null\<close> and \<open>undefined\<close>; \<open>v?.k\<close> is \<open>undefined\<close>
  there. The keys that the code reads name no built-in property of a string, a number,
  a boolean or an array, so on those the result is \<open>undefined\<close>.
\<close>

fun ownProp :: "json \<Rightarrow> string \<Rightarrow> json" where
  "ownProp (JObj kvs) k = (case map_of kvs k of None \<Rightarrow> JUndefined | Some v \<Rightarrow> v)"
| "ownProp v k = JUndefined"

fun getProp :: "json \<Rightarrow> string \<Rightarrow> js_error + json" where
  "getProp JUndefined k = Inl TypeError"
| "getProp JNull k = Inl TypeError"
| "getProp v k = Inr (ownProp v k)"

fun optProp :: "json \<Rightarrow> string \<Rightarrow> json" where
  "optProp JUndefined k = JUndefined"
| "optProp JNull k = JUndefined"
| "optProp v k = ownProp v k"

definition optPath :: "json \<Rightarrow> string list \<Rightarrow> json" where
  \<comment> \<open>\<open>v?.a?.b?.c\<close>\<close>
  "optPath v ks = foldl optProp v ks"

text \<open>
  \<open>orChain [a, b, c]\<close> is \<open>a || b || c\<close>: the first operand that is truthy, else the
  last one, and the error of the first operand that throws before that.
\<close>

fun orChain :: "(js_error + json) list \<Rightarrow> js_error + json" where
  "orChain [] = Inr JUndefined"
| "orChain [x] = x"
| "orChain (x # y # rest) =
     (case x of
        Inl e \<Rightarrow> Inl e
      | Inr v \<Rightarrow> if truthy v then Inr v else orChain (y # rest))"

subsection \<open>normalizeHoldingsResponse\<close>

text \<open>The returned object; \<open>raw\<close> is \<open>None\<close> when the object has no such property.\<close>

record holdings_result =
  accounts :: json
  positions :: json
  raw :: "json option"

definition normalizeHoldingsResponse :: "json \<Rightarrow> js_error + holdings_result" where
  "normalizeHoldingsResponse data =
     (if \<not> truthy data
      then Inr \<lparr>accounts = JArr [], positions = JArr [], raw = None\<rparr>
      else
        (case orChain [getProp data ''accounts'',
                       getProp data ''brokerageAccounts'',
                       Inr (JArr [])] of
           Inl e \<Rightarrow> Inl e
         | Inr accts \<Rightarrow>
             (case orChain [Inr (optPath data [''data'', ''positions'']),
                            Inr (optPath data [''data'', ''holdings'']),
                            Inr (optPath data [''data'', ''results'']),
                            Inr (optPath data [''data'']),
                            getProp data ''holdings'',
                            getProp data ''positions'',
                            getProp data ''accountHoldings'',
                            getProp data ''results'',
                            Inr data,
                            Inr (JArr [])] of
                Inl e \<Rightarrow> Inl e
              | Inr pos \<Rightarrow>
                  Inr \<lparr>accounts = accts,
                       positions = (if isArray pos then pos else JArr []),
                       raw = Some data\<rparr>)))"

subsection \<open>firstString and formatTicker\<close>

fun firstString :: "json list \<Rightarrow> js_error + string" where
  "firstString [] = Inr []"
| "firstString (c # cs) =
     (if isString c \<and> trim (case c of JStr s \<Rightarrow> s | _ \<Rightarrow> []) \<noteq> []
      then Inr (trim (case c of JStr s \<Rightarrow> s | _ \<Rightarrow> []))
      else if truthy c \<and> isObjectType c
      then (case orChain [getProp c ''symbol'', getProp c ''ticker'', getProp c ''code'',
                          getProp c ''name'', getProp c ''id''] of
              Inl e \<Rightarrow> Inl e
            | Inr (JStr s) \<Rightarrow> if trim s \<noteq> [] then Inr (trim s) else firstString cs
            | Inr nested \<Rightarrow> firstString cs)
      else firstString cs)"

definition formatTicker :: "json \<Rightarrow> js_error + string" where
  "formatTicker position =
     (case (if isString (optPath position [''symbol''])
            then getProp position ''symbol'' else Inr (JStr [])) of
        Inl e \<Rightarrow> Inl e
      | Inr lastResort \<Rightarrow>
          firstString
            [optPath position [''ticker''],
             optPath position [''symbol'', ''symbol''],
             optPath position [''symbol'', ''ticker''],
             optPath position [''symbol'', ''symbol'', ''symbol''],
             optPath position [''symbol'', ''symbol'', ''ticker''],
             optPath position [''universalSymbol'', ''symbol''],
             optPath position [''universalSymbol'', ''ticker''],
             optPath position [''universal_symbol'', ''symbol''],
             optPath position [''universal_symbol'', ''ticker''],
             optPath position [''instrument'', ''symbol''],
             optPath position [''instrument'', ''ticker''],
             optPath position [''security'', ''symbol''],
             optPath position [''security'', ''ticker''],
             optPath position [''instrument'', ''universalSymbol'', ''symbol''],
             optPath position [''instrument'', ''universal_symbol'', ''symbol''],
             lastResort])"

section \<open>Backend user routes (backend/server.js)\<close>

text \<open>
  The backend keeps one piece of state, the map \<open>userSecrets\<close>. A route handler takes
  the results of its calls to the remote service as parameters and returns the HTTP
  response with the new state. A remote call either returns its \<open>response.data\<close> or
  throws an error, of which the handlers read \<open>error.response?.status\<close>,
  \<open>error.response?.data\<close> and \<open>error.message\<close>.
\<close>

record server =
  userSecrets :: "string \<rightharpoonup> json"

record upstream_error =
  responseStatus :: "nat option"
  responseData :: json
  message :: string

datatype 'a upstream = Returned 'a | Threw upstream_error

datatype http_response = Response nat json

definition errorResponse :: "upstream_error \<Rightarrow> http_response" where
  \<comment> \<open>\<open>res.status(error.response?.status || 500)
        .json({error: error.response?.data || error.message})\<close>\<close>
  "errorResponse e =
     Response (case responseStatus e of
                 None \<Rightarrow> 500
               | Some st \<Rightarrow> if st = 0 then 500 else st)
       (JObj [(''error'',
               if truthy (responseData e) then responseData e else JStr (message e))])"

definition secretOrNull :: "server \<Rightarrow> string \<Rightarrow> json" where
  \<comment> \<open>\<open>userSecrets.get(userId) || null\<close>\<close>
  "secretOrNull s userId =
     (case userSecrets s userId of
        None \<Rightarrow> JNull
      | Some v \<Rightarrow> if truthy v then v else JNull)"

definition getUsers :: "string list upstream \<Rightarrow> server \<Rightarrow> http_response \<times> server" where
  \<comment> \<open>\<open>app.get("/api/users")\<close>\<close>
  "getUsers listed s =
     (case listed of
        Returned ids \<Rightarrow>
          (Response 200
             (JArr (map (\<lambda>userId. JObj [(''userId'', JStr userId),
                                         (''userSecret'', secretOrNull s userId)]) ids)), s)
      | Threw e \<Rightarrow> (errorResponse e, s))"

definition postUsers ::
  "string option \<Rightarrow> string list upstream \<Rightarrow> json upstream \<Rightarrow> server
     \<Rightarrow> http_response \<times> server" where
  \<comment> \<open>\<open>app.post("/api/users")\<close>; the first argument is \<open>req.body.userId\<close>\<close>
  "postUsers bodyUserId existing registered s =
     (case bodyUserId of
        None \<Rightarrow> (Response 400 (JObj [(''error'', JStr ''userId is required'')]), s)
      | Some userId \<Rightarrow>
          if userId = [] then (Response 400 (JObj [(''error'', JStr ''userId is required'')]), s)
          else if (case existing of Returned ids \<Rightarrow> userId \<in> set ids | Threw e \<Rightarrow> False)
          then (Response 409 (JObj [(''error'', JStr ''User already exists'')]), s)
          else (case registered of
                  Threw e \<Rightarrow> (errorResponse e, s)
                | Returned data \<Rightarrow>
                    (case getProp data ''userSecret'' of
                       Inl err \<Rightarrow>
                         \<comment> \<open>the outer \<open>catch\<close>: no \<open>error.response\<close>, and the message of
                            the TypeError, which depends on the engine\<close>
                         (Response 500 (JObj [(''error'', JStr ''TypeError'')]), s)
                     | Inr secret \<Rightarrow>
                         (Response 200 data,
                          s\<lparr>userSecrets := (userSecrets s)(userId \<mapsto> secret)\<rparr>))))"

definition deleteUser :: "string \<Rightarrow> json upstream \<Rightarrow> server \<Rightarrow> http_response \<times> server" where
  \<comment> \<open>\<open>app.delete("/api/users/:userId")\<close>\<close>
  "deleteUser userId deleted s =
     (case deleted of
        Returned data \<Rightarrow> (Response 200 data, s)
      | Threw e \<Rightarrow> (errorResponse e, s))"

section \<open>Effect sequences used to state the properties\<close>

fun isLog :: "event \<Rightarrow> bool" where
  "isLog (Log prefix msg c) = True"
| "isLog e = False"

fun isFrontendSpawn :: "event \<Rightarrow> bool" where
  \<comment> \<open>\<open>spawn("npm", ["start"], ...)\<close>, with any environment\<close>
  "isFrontendSpawn (Spawn cmd args env) = (cmd = ''npm'' \<and> args = [''start''])"
| "isFrontendSpawn e = False"

definition lookupCommand :: "string \<Rightarrow> port \<Rightarrow> event" where
  \<comment> \<open>the spawn of the command that \<open>killProcessOnPort\<close> starts with\<close>
  "lookupCommand platform p =
     (if platform = ''win32'' then Spawn ''netstat'' [''-ano''] []
      else Spawn ''lsof'' [''-ti'', ''tcp:'' @ showInt p] [])"

definition failedPoll :: "string \<Rightarrow> nat \<Rightarrow> event list" where
  \<comment> \<open>attempt \<open>i\<close> of the health poll when it fails: the request, the notice on the
     first attempt only, and the wait of one second\<close>
  "failedPoll url i =
     [HttpGet (url @ ''/api/status'')]
     @ (if i = 0 then [Log ''STARTUP'' ''Waiting for backend to start...'' cyan] else [])
     @ [Sleep 1000]"

definition terminateChild :: "string \<Rightarrow> nat \<Rightarrow> event" where
  \<comment> \<open>how a child that was not killed before is told to stop: SIGTERM, and on win32 a
     forced kill of its process tree\<close>
  "terminateChild platform p =
     (if platform = ''win32''
      then Spawn ''taskkill'' [''/PID'', showNat p, ''/T'', ''/F''] []
      else ChildKill p ''SIGTERM'')"

definition teardown :: "world \<Rightarrow> supervisor \<Rightarrow> signal \<Rightarrow> event list" where
  \<comment> \<open>one whole teardown: both children are told to stop, the grace wait of 1.5 s, the
     reclamation of the backend port and of the frontend port, the exit with status 0\<close>
  "teardown w sv s =
     [Log ''STARTUP'' (''Shutting down services ('' @ signalName s @ '')...'') cyan,
      terminateChild (processPlatform w) (pid (frontend sv)),
      terminateChild (processPlatform w) (pid (backend sv)),
      Sleep 1500]
     @ fst (killProcessOnPort (processPlatform w) (jsIsNaN w) (lookupRuns w 2)
              (BACKEND_PORT sv))
     @ fst (killProcessOnPort (processPlatform w) (jsIsNaN w) (lookupRuns w 3)
              (FRONTEND_PORT sv))
     @ [Log ''STARTUP'' ''Shutdown complete. Ports released.'' cyan, Exit 0]"

definition performed :: "world \<Rightarrow> supervisor \<Rightarrow> nat \<Rightarrow> nat" where
  \<comment> \<open>how many effects of \<open>teardown\<close> have happened when the teardown was resumed \<open>k\<close>
     times: it stops for good at a reclamation whose promise does not resolve\<close>
  "performed w sv k =
     (let kb = killProcessOnPort (processPlatform w) (jsIsNaN w) (lookupRuns w 2)
                 (BACKEND_PORT sv);
          kf = killProcessOnPort (processPlatform w) (jsIsNaN w) (lookupRuns w 3)
                 (FRONTEND_PORT sv)
      in if k = 0 then 4
         else if k = 1 \<or> snd kb \<noteq> Resolved then 4 + length (fst kb)
         else if k = 2 \<or> snd kf \<noteq> Resolved then 4 + length (fst kb) + length (fst kf)
         else 4 + length (fst kb) + length (fst kf) + 2)"

fun firstSignal :: "input list \<Rightarrow> signal option" where
  "firstSignal [] = None"
| "firstSignal (Deliver s # ins) = Some s"
| "firstSignal (Resume # ins) = firstSignal ins"

fun resumesAfterSignal :: "input list \<Rightarrow> nat" where
  \<comment> \<open>how many times the teardown was resumed after the first signal\<close>
  "resumesAfterSignal [] = 0"
| "resumesAfterSignal (Deliver s # ins) = length (filter (\<lambda>i. i = Resume) ins)"
| "resumesAfterSignal (Resume # ins) = resumesAfterSignal ins"

section \<open>Example inputs\<close>

text \<open>Concrete inputs at which the theorems below are instantiated.\<close>

definition busy :: probe where
  \<comment> \<open>both preferred ports and the first port of the backend range are occupied\<close>
  "busy p h = (p \<notin> {3000, 3001, 3005})"

definition defaultOptions :: options where
  \<comment> \<open>\<open>findFreePorts()\<close> without options\<close>
  "defaultOptions =
     \<lparr>host = None, preferredBackendPort = None, preferredFrontendPort = None,
      backendRangeStart = None, backendRangeEnd = None,
      frontendRangeStart = None, frontendRangeEnd = None\<rparr>"

definition nothingFound :: child_run where
  \<comment> \<open>\<open>lsof\<close> prints nothing and ends with code 1: nobody holds the port\<close>
  "nothingFound = \<lparr>chunks = [], ending = Close (Some 1)\<rparr>"

definition deadBackend :: world where
  \<comment> \<open>a Linux host with every port free on which the backend never answers\<close>
  "deadBackend =
     \<lparr>processPlatform = ''linux'', jsIsNaN = (\<lambda>s. False), portProbe = (\<lambda>p h. True),
      lookupRuns = (\<lambda>n. nothingFound), healthProbe = (\<lambda>i. False),
      backendPid = 4001, frontendPid = 4002, hostIPs = []\<rparr>"

definition windowsHost :: world where
  "windowsHost = deadBackend\<lparr>processPlatform := ''win32''\<rparr>"

definition serving :: machine where
  \<comment> \<open>the supervisor as \<open>startServices\<close> leaves it on the preferred ports\<close>
  "serving =
     \<lparr>sup = \<lparr>BACKEND_PORT = 3005, FRONTEND_PORT = 3000,
             backend = \<lparr>pid = 4001, killed = False\<rparr>,
             frontend = \<lparr>pid = 4002, killed = False\<rparr>,
             shuttingDown = False\<rparr>,
      phase = Serving, trace = []\<rparr>"

definition twoListeners :: child_run where
  \<comment> \<open>\<open>lsof -ti\<close> prints the ids of two processes, one per line\<close>
  "twoListeners =
     \<lparr>chunks = [''123'' @ [CHR 0x0A] @ ''456'' @ [CHR 0x0A]], ending = Close (Some 0)\<rparr>"

definition lookupFailed :: child_run where
  \<comment> \<open>the lookup command could not be started\<close>
  "lookupFailed = \<lparr>chunks = [], ending = SpawnError\<rparr>"

definition tsla :: json where
  \<comment> \<open>\<open>{symbol: {symbol: {symbol: "TSLA"}}}\<close>\<close>
  "tsla = JObj [(''symbol'', JObj [(''symbol'', JObj [(''symbol'', JStr ''TSLA'')])])]"

definition msftNested :: json where
  \<comment> \<open>\<open>{symbol: {symbol: {id: "uuid-1", symbol: "", ticker: " MSFT "}}}\<close>\<close>
  "msftNested =
     JObj [(''symbol'',
            JObj [(''symbol'',
                   JObj [(''id'', JStr ''uuid-1''), (''symbol'', JStr []),
                         (''ticker'', JStr '' MSFT '')])])]"

definition nestedAndFlat :: json where
  \<comment> \<open>\<open>{holdings: [1], data: {positions: [2]}}\<close>\<close>
  "nestedAndFlat =
     JObj [(''holdings'', JArr [JNum 1]), (''data'', JObj [(''positions'', JArr [JNum 2])])]"

definition registered :: json where
  \<comment> \<open>what the remote service returns for a registration\<close>
  "registered = JObj [(''userId'', JStr ''alice''), (''userSecret'', JStr ''s3cret'')]"

definition registeredBlank :: json where
  \<comment> \<open>a registration for which the remote service returns an empty secret\<close>
  "registeredBlank = JObj [(''userId'', JStr ''alice''), (''userSecret'', JStr [])]"

section \<open>Properties of the port allocator\<close>

subsection \<open>The scan returns the lowest free port of its range\<close>

lemma scanPorts_Some:
  "scanPorts isPortFree h p e = Some r \<longleftrightarrow>
     p \<le> r \<and> r \<le> e \<and> isPortFree r h \<and> (\<forall>q. p \<le> q \<and> q < r \<longrightarrow> \<not> isPortFree q h)"
proof (induction isPortFree h p e rule: scanPorts.induct)
  case (1 isPortFree h p e)
  show ?case
  proof (cases "p \<le> e")
    case False
    then show ?thesis by (subst scanPorts.simps) auto
  next
    case True
    show ?thesis
    proof (cases "isPortFree p h")
      case free: True
      have "r = p" if "p \<le> r" "\<forall>q. p \<le> q \<and> q < r \<longrightarrow> \<not> isPortFree q h"
        using that free by (metis order_le_less)
      with True free show ?thesis
        by (subst scanPorts.simps) auto
    next
      case occupied: False
      have step: "(p \<le> r \<and> (\<forall>q. p \<le> q \<and> q < r \<longrightarrow> \<not> isPortFree q h)) \<longleftrightarrow>
                  (p + 1 \<le> r \<and> (\<forall>q. p + 1 \<le> q \<and> q < r \<longrightarrow> \<not> isPortFree q h))"
        if "isPortFree r h"
      proof
        assume a: "p \<le> r \<and> (\<forall>q. p \<le> q \<and> q < r \<longrightarrow> \<not> isPortFree q h)"
        have "p \<noteq> r" using that occupied by auto
        with a show "p + 1 \<le> r \<and> (\<forall>q. p + 1 \<le> q \<and> q < r \<longrightarrow> \<not> isPortFree q h)"
          by auto
      next
        assume a: "p + 1 \<le> r \<and> (\<forall>q. p + 1 \<le> q \<and> q < r \<longrightarrow> \<not> isPortFree q h)"
        have "\<not> isPortFree q h" if "p \<le> q" "q < r" for q
          using that a occupied by (cases "q = p") auto
        with a show "p \<le> r \<and> (\<forall>q. p \<le> q \<and> q < r \<longrightarrow> \<not> isPortFree q h)"
          by auto
      qed
      have "scanPorts isPortFree h p e = scanPorts isPortFree h (p + 1) e"
        using True occupied by (subst scanPorts.simps) simp
      then show ?thesis
        using "1.IH" [OF True occupied] step by auto
    qed
  qed
qed

lemma scanPorts_None:
  "scanPorts isPortFree h p e = None \<longleftrightarrow> (\<forall>q. p \<le> q \<and> q \<le> e \<longrightarrow> \<not> isPortFree q h)"
proof (induction isPortFree h p e rule: scanPorts.induct)
  case (1 isPortFree h p e)
  show ?case
  proof (cases "p \<le> e")
    case False
    then show ?thesis by (subst scanPorts.simps) auto
  next
    case True
    show ?thesis
    proof (cases "isPortFree p h")
      case free: True
      with True show ?thesis by (subst scanPorts.simps) auto
    next
      case occupied: False
      have "(\<forall>q. p \<le> q \<and> q \<le> e \<longrightarrow> \<not> isPortFree q h) \<longleftrightarrow>
            (\<forall>q. p + 1 \<le> q \<and> q \<le> e \<longrightarrow> \<not> isPortFree q h)"
      proof
        assume "\<forall>q. p \<le> q \<and> q \<le> e \<longrightarrow> \<not> isPortFree q h"
        then show "\<forall>q. p + 1 \<le> q \<and> q \<le> e \<longrightarrow> \<not> isPortFree q h" by auto
      next
        assume a: "\<forall>q. p + 1 \<le> q \<and> q \<le> e \<longrightarrow> \<not> isPortFree q h"
        have "\<not> isPortFree q h" if "p \<le> q" "q \<le> e" for q
          using that a occupied by (cases "q = p") auto
        then show "\<forall>q. p \<le> q \<and> q \<le> e \<longrightarrow> \<not> isPortFree q h" by auto
      qed
      moreover have "scanPorts isPortFree h p e = scanPorts isPortFree h (p + 1) e"
        using True occupied by (subst scanPorts.simps) simp
      ultimately show ?thesis
        using "1.IH" [OF True occupied] by simp
    qed
  qed
qed

lemma scanPorts_lowestFree:
  "scanPorts isPortFree h lo hi = Some r \<longleftrightarrow> lowestFree isPortFree h lo hi {} r"
  unfolding scanPorts_Some lowestFree_def by auto

lemma findFreePort_scan:
  assumes "pref = 0 \<or> \<not> isPortFree pref h"
  shows "findFreePort isPortFree (Some pref) (Some h) (Some lo) (Some hi) = Inr r
         \<longleftrightarrow> lowestFree isPortFree h lo hi {} r"
  using assms
  by (auto simp: findFreePort_def dflt_def scanPorts_lowestFree [symmetric]
           split: option.splits)

lemma findFreePort_None:
  "findFreePort isPortFree None (Some h) (Some lo) (Some hi) = Inr r
   \<longleftrightarrow> lowestFree isPortFree h lo hi {} r"
  by (auto simp: findFreePort_def dflt_def scanPorts_lowestFree [symmetric]
           split: option.splits)

lemma lowestFree_exists:
  assumes "lo \<le> p" "p \<le> hi" "isPortFree p h"
  shows "\<exists>r. lowestFree isPortFree h lo hi {} r \<and> r \<le> p"
proof -
  have "scanPorts isPortFree h lo hi \<noteq> None"
    using assms by (auto simp: scanPorts_None)
  then obtain r where r: "scanPorts isPortFree h lo hi = Some r" by auto
  then have low: "lowestFree isPortFree h lo hi {} r" by (simp add: scanPorts_lowestFree)
  have "r \<le> p"
  proof (rule ccontr)
    assume "\<not> r \<le> p"
    then have "lo \<le> p \<and> p < r" using assms by simp
    with low assms show False unfolding lowestFree_def by simp
  qed
  with low show ?thesis by blast
qed

lemma lowestFree_iff:
  "lowestFree isPortFree h lo hi excl p \<longleftrightarrow>
     lo \<le> p \<and> p \<le> hi \<and> isPortFree p h \<and> p \<notin> excl \<and>
     (\<forall>q. lo \<le> q \<and> q < p \<and> isPortFree q h \<longrightarrow> q \<in> excl)"
  unfolding lowestFree_def Ball_def by auto

text \<open>The re-scan after a collision: the lowest free port other than the backend's.\<close>

lemma rescan_excluding:
  assumes first: "lowestFree isPortFree h lo hi {} b"
  shows "lowestFree isPortFree h (max lo (b + 1)) hi {} f \<longleftrightarrow> lowestFree isPortFree h lo hi {b} f"
proof
  assume re: "lowestFree isPortFree h (max lo (b + 1)) hi {} f"
  from first have b1: "lo \<le> b" "isPortFree b h"
    and b2: "\<And>q. lo \<le> q \<Longrightarrow> q < b \<Longrightarrow> \<not> isPortFree q h"
    unfolding lowestFree_iff by simp_all
  from re have f1: "lo \<le> f" "b + 1 \<le> f" "f \<le> hi" "isPortFree f h"
    and f2: "\<And>q. lo \<le> q \<Longrightarrow> b + 1 \<le> q \<Longrightarrow> q < f \<Longrightarrow> \<not> isPortFree q h"
    unfolding lowestFree_iff by simp_all
  have "q = b" if "lo \<le> q" "q < f" "isPortFree q h" for q
  proof (rule ccontr)
    assume "q \<noteq> b"
    have "\<not> q < b" using b2 that by blast
    with \<open>q \<noteq> b\<close> have "b + 1 \<le> q" by linarith
    with f2 that show False by blast
  qed
  moreover have "f \<noteq> b" using f1 by linarith
  ultimately show "lowestFree isPortFree h lo hi {b} f"
    unfolding lowestFree_iff using f1 by simp
next
  assume ex: "lowestFree isPortFree h lo hi {b} f"
  from first have b1: "lo \<le> b" "isPortFree b h"
    and b2: "\<And>q. lo \<le> q \<Longrightarrow> q < b \<Longrightarrow> \<not> isPortFree q h"
    unfolding lowestFree_iff by simp_all
  from ex have f1: "lo \<le> f" "f \<le> hi" "isPortFree f h" "f \<noteq> b"
    and f2: "\<And>q. lo \<le> q \<Longrightarrow> q < f \<Longrightarrow> isPortFree q h \<Longrightarrow> q = b"
    unfolding lowestFree_iff by simp_all
  have "\<not> f < b" using b2 f1 by blast
  with f1 have "b + 1 \<le> f" by linarith
  moreover have "\<not> isPortFree q h" if "b + 1 \<le> q" "lo \<le> q" "q < f" for q
  proof
    assume "isPortFree q h"
    with f2 that have "q = b" by blast
    with that show False by linarith
  qed
  ultimately show "lowestFree isPortFree h (max lo (b + 1)) hi {} f"
    unfolding lowestFree_iff using f1 by simp
qed

lemma no_collision_excluding:
  assumes first: "lowestFree isPortFree h lo hi {} f0" and ne: "f0 \<noteq> b"
  shows "f = f0 \<longleftrightarrow> lowestFree isPortFree h lo hi {b} f"
proof
  assume "f = f0"
  with first ne show "lowestFree isPortFree h lo hi {b} f"
    unfolding lowestFree_iff by blast
next
  assume ex: "lowestFree isPortFree h lo hi {b} f"
  from first have a1: "lo \<le> f0" "isPortFree f0 h"
    and a2: "\<And>q. lo \<le> q \<Longrightarrow> q < f0 \<Longrightarrow> \<not> isPortFree q h"
    unfolding lowestFree_iff by simp_all
  from ex have f1: "lo \<le> f" "isPortFree f h"
    and f2: "\<And>q. lo \<le> q \<Longrightarrow> q < f \<Longrightarrow> isPortFree q h \<Longrightarrow> q = b"
    unfolding lowestFree_iff by simp_all
  have "\<not> f < f0" using a2 f1 by blast
  moreover have "\<not> f0 < f" using f2 a1 ne by blast
  ultimately show "f = f0" by simp
qed

lemma findFreePorts_frontend:
  assumes occ: "\<not> isPortFree pf h"
  shows "(case findFreePort isPortFree (Some pf) (Some h) (Some fs) (Some fe) of
           Inl e \<Rightarrow> Inl e
         | Inr f \<Rightarrow>
                  if f = b
                  then (case findFreePort isPortFree None (Some h)
                               (Some (max fs (b + 1))) (Some fe) of
                          Inl e \<Rightarrow> Inl e
                        | Inr f' \<Rightarrow> Inr \<lparr>backendPort = b, frontendPort = f'\<rparr>)
                  else Inr \<lparr>backendPort = b, frontendPort = f\<rparr>) = Inr \<lparr>backendPort = b, frontendPort = f\<rparr>
        \<longleftrightarrow> lowestFree isPortFree h fs fe {b} f"
proof (cases "findFreePort isPortFree (Some pf) (Some h) (Some fs) (Some fe)")
  case (Inl e)
  have "\<not> lowestFree isPortFree h fs fe {b} f"
  proof
    assume ex: "lowestFree isPortFree h fs fe {b} f"
    then obtain r where "lowestFree isPortFree h fs fe {} r"
      using lowestFree_exists [of fs f fe isPortFree h] unfolding lowestFree_def by blast
    then have "findFreePort isPortFree (Some pf) (Some h) (Some fs) (Some fe) = Inr r"
      using findFreePort_scan [of pf isPortFree h fs fe r] occ by blast
    with Inl show False by simp
  qed
  with Inl show ?thesis by simp
next
  case (Inr f0)
  then have f0: "lowestFree isPortFree h fs fe {} f0"
    using findFreePort_scan [of pf isPortFree h fs fe f0] occ by blast
  show ?thesis
  proof (cases "f0 = b")
    case False
    with Inr no_collision_excluding [OF f0 False, of f] show ?thesis by auto
  next
    case True
    with f0 have "lowestFree isPortFree h fs fe {} b" by simp
    from rescan_excluding [OF this, of f]
    have "findFreePort isPortFree None (Some h) (Some (max fs (b + 1))) (Some fe) = Inr f
          \<longleftrightarrow> lowestFree isPortFree h fs fe {b} f"
      by (simp only: findFreePort_None)
    with Inr True show ?thesis
      by (cases "findFreePort isPortFree None (Some h) (Some (max fs (b + 1))) (Some fe)") auto
  qed
qed

subsection \<open>Distinct ports\<close>

text \<open>
  Claim C1. Whenever \<open>findFreePorts\<close> returns a port assignment instead of failing with
  the no-free-port error, the backend port and the frontend port of that assignment are
  different, the status of every port being fixed during the call.
\<close>

theorem findFreePorts_distinct:
  "findFreePorts isPortFree opts = Inr pa \<Longrightarrow> backendPort pa \<noteq> frontendPort pa"
proof -
  assume ret: "findFreePorts isPortFree opts = Inr pa"
  let ?h = "dflt ''127.0.0.1'' (host opts)"
  let ?fs = "dflt 3000 (frontendRangeStart opts)"
  let ?fe = "dflt 4999 (frontendRangeEnd opts)"
  obtain b where b: "findFreePort isPortFree (Some (dflt 3005 (preferredBackendPort opts)))
        (Some ?h) (Some (dflt 3001 (backendRangeStart opts)))
        (Some (dflt 3999 (backendRangeEnd opts))) = Inr b"
    using ret by (auto simp: findFreePorts_def Let_def split: sum.splits)
  obtain f where f: "findFreePort isPortFree (Some (dflt 3000 (preferredFrontendPort opts)))
        (Some ?h) (Some ?fs) (Some ?fe) = Inr f"
    using ret b by (auto simp: findFreePorts_def Let_def split: sum.splits)
  show ?thesis
  proof (cases "f = b")
    case False
    with ret b f show ?thesis
      by (auto simp: findFreePorts_def Let_def)
  next
    case True
    with ret b f obtain f' where
      f': "findFreePort isPortFree None (Some ?h) (Some (max ?fs (b + 1))) (Some ?fe) = Inr f'"
      and pa: "pa = \<lparr>backendPort = b, frontendPort = f'\<rparr>"
      by (auto simp: findFreePorts_def Let_def split: sum.splits)
    from f' have "max ?fs (b + 1) \<le> f'"
      by (simp add: findFreePort_None lowestFree_def)
    with pa show ?thesis by simp
  qed
qed

text \<open>
  The witness: every port is free and both roles prefer port 3000, so the two searches
  collide and the re-scan moves the frontend to 3001.
\<close>

theorem findFreePorts_distinct_witness:
  "findFreePorts (\<lambda>p h. True)
     (defaultOptions\<lparr>preferredBackendPort := Some 3000\<rparr>)
     = Inr \<lparr>backendPort = 3000, frontendPort = 3001\<rparr>
   \<and> backendPort \<lparr>backendPort = 3000, frontendPort = 3001\<rparr>
       \<noteq> frontendPort \<lparr>backendPort = 3000, frontendPort = 3001\<rparr>"
proof -
  have ret: "findFreePorts (\<lambda>p h. True)
     (defaultOptions\<lparr>preferredBackendPort := Some 3000\<rparr>)
     = Inr \<lparr>backendPort = 3000, frontendPort = 3001\<rparr>"
    by (simp add: findFreePorts_def findFreePort_def defaultOptions_def dflt_def
          scanPorts.simps)
  show ?thesis
    using ret findFreePorts_distinct [OF ret] by simp
qed

subsection \<open>The lowest free port of the range\<close>

text \<open>
  Claim C6. When the preferred port of a role is occupied, the allocator scans the
  range of the role upwards and returns the lowest free port from the start of the
  range on, leaving out the port already chosen for the other role. In the theorem,
  \<open>backendCall\<close> is the first call of \<open>findFreePort\<close>, which chooses the backend port
  before anything is chosen for the frontend.
  \<^item> If the preferred backend port is occupied, that call returns \<open>b\<close> exactly when
    \<open>b\<close> is the lowest free port of the backend range.
  \<^item> The backend port of an assignment is what that call returned.
  \<^item> If the preferred frontend port is occupied, the allocation returns the
    assignment of \<open>b\<close> and \<open>f\<close> exactly when the backend call returned \<open>b\<close> and \<open>f\<close>
    is the lowest free port of the frontend range other than \<open>b\<close>.
\<close>

theorem findFreePorts_lowest_free:
  "let h = dflt ''127.0.0.1'' (host opts);
       pb = dflt 3005 (preferredBackendPort opts);
       pf = dflt 3000 (preferredFrontendPort opts);
       bs = dflt 3001 (backendRangeStart opts);
       be = dflt 3999 (backendRangeEnd opts);
       fs = dflt 3000 (frontendRangeStart opts);
       fe = dflt 4999 (frontendRangeEnd opts);
       backendCall = findFreePort isPortFree (Some pb) (Some h) (Some bs) (Some be)
   in (\<not> isPortFree pb h \<longrightarrow>
         (backendCall = Inr b \<longleftrightarrow> lowestFree isPortFree h bs be {} b))
    \<and> (findFreePorts isPortFree opts = Inr \<lparr>backendPort = b, frontendPort = f\<rparr>
         \<longrightarrow> backendCall = Inr b)
    \<and> (\<not> isPortFree pf h \<longrightarrow>
         (findFreePorts isPortFree opts = Inr \<lparr>backendPort = b, frontendPort = f\<rparr>
          \<longleftrightarrow> backendCall = Inr b \<and> lowestFree isPortFree h fs fe {b} f))"
proof -
  let ?h = "dflt ''127.0.0.1'' (host opts)"
  let ?pb = "dflt 3005 (preferredBackendPort opts)"
  let ?pf = "dflt 3000 (preferredFrontendPort opts)"
  let ?bs = "dflt 3001 (backendRangeStart opts)"
  let ?be = "dflt 3999 (backendRangeEnd opts)"
  let ?fs = "dflt 3000 (frontendRangeStart opts)"
  let ?fe = "dflt 4999 (frontendRangeEnd opts)"
  let ?bcall = "findFreePort isPortFree (Some ?pb) (Some ?h) (Some ?bs) (Some ?be)"
  let ?ret = "findFreePorts isPortFree opts = Inr \<lparr>backendPort = b, frontendPort = f\<rparr>"
  have one: "?bcall = Inr b \<longleftrightarrow> lowestFree isPortFree ?h ?bs ?be {} b"
    if "\<not> isPortFree ?pb ?h"
    using that by (simp add: findFreePort_scan)
  have two: "?bcall = Inr b" if ?ret
    using that by (auto simp: findFreePorts_def Let_def split: sum.splits if_splits)
  have three: "?ret \<longleftrightarrow> ?bcall = Inr b \<and> lowestFree isPortFree ?h ?fs ?fe {b} f"
    if occ: "\<not> isPortFree ?pf ?h"
  proof (cases "?bcall = Inr b")
    case False
    with two show ?thesis by blast
  next
    case True
    from findFreePorts_frontend
           [where isPortFree = isPortFree and pf = ?pf and h = ?h and fs = ?fs and fe = ?fe
              and b = b and f = f, OF occ]
      True show ?thesis
      by (simp add: findFreePorts_def Let_def)
  qed
  from one two three show ?thesis
    unfolding Let_def by blast
qed

text \<open>
  The witness: ports 3000, 3001 and 3005 are occupied. The backend gets 3002, the scan
  for the frontend finds 3002 too, and the re-scan from 3003 settles on 3003.
\<close>

theorem findFreePorts_lowest_free_witness:
  "\<not> busy 3005 ''127.0.0.1'' \<and> \<not> busy 3000 ''127.0.0.1'' \<and>
   findFreePorts busy defaultOptions = Inr \<lparr>backendPort = 3002, frontendPort = 3003\<rparr>"
proof -
  have occ: "\<not> busy 3005 ''127.0.0.1''" "\<not> busy 3000 ''127.0.0.1''"
    by (simp_all add: busy_def)
  have b: "lowestFree busy ''127.0.0.1'' 3001 3999 {} 3002"
    unfolding lowestFree_iff busy_def by (simp; presburger)
  have f: "lowestFree busy ''127.0.0.1'' 3000 4999 {3002} 3003"
    unfolding lowestFree_iff busy_def by (simp; presburger)
  have "(\<not> busy 3005 ''127.0.0.1'' \<longrightarrow>
         (findFreePort busy (Some 3005) (Some ''127.0.0.1'') (Some 3001) (Some 3999) = Inr 3002
           \<longleftrightarrow> lowestFree busy ''127.0.0.1'' 3001 3999 {} 3002))
    \<and> (findFreePorts busy defaultOptions = Inr \<lparr>backendPort = 3002, frontendPort = 3003\<rparr>
         \<longrightarrow> findFreePort busy (Some 3005) (Some ''127.0.0.1'') (Some 3001) (Some 3999) = Inr 3002)
    \<and> (\<not> busy 3000 ''127.0.0.1'' \<longrightarrow>
         (findFreePorts busy defaultOptions = Inr \<lparr>backendPort = 3002, frontendPort = 3003\<rparr>
          \<longleftrightarrow> findFreePort busy (Some 3005) (Some ''127.0.0.1'') (Some 3001) (Some 3999) = Inr 3002
              \<and> lowestFree busy ''127.0.0.1'' 3000 4999 {3002} 3003))"
    using findFreePorts_lowest_free [of defaultOptions busy 3002 3003]
    by (simp add: Let_def dflt_def defaultOptions_def)
  with occ b f show ?thesis by blast
qed

section \<open>Properties of the supervisor\<close>

subsection \<open>A backend that never becomes healthy\<close>

lemma waitLoop_all_fail:
  assumes "\<And>j. i \<le> j \<Longrightarrow> j < n \<Longrightarrow> \<not> health j"
  shows "waitLoop health url i n =
           (concat (map (failedPoll url) [i..<n])
            @ [Log ''STARTUP'' ''Backend failed to start within 30 seconds'' red], False)"
  using assms
proof (induction health url i n rule: waitLoop.induct)
  case (1 health url i maxRetries)
  show ?case
  proof (cases "i < maxRetries")
    case False
    then show ?thesis by (subst waitLoop.simps) simp
  next
    case True
    have nh: "\<not> health i" using "1.prems" True by simp
    have IH: "waitLoop health url (Suc i) maxRetries =
           (concat (map (failedPoll url) [Suc i..<maxRetries])
            @ [Log ''STARTUP'' ''Backend failed to start within 30 seconds'' red], False)"
      using "1.IH" [OF True nh] "1.prems" by simp
    have up: "[i..<maxRetries] = i # [Suc i..<maxRetries]"
      using True by (simp add: upt_conv_Cons)
    show ?thesis
      using True nh
      by (subst waitLoop.simps) (simp add: IH up failedPoll_def Let_def)
  qed
qed

lemma killProcessOnPort_no_frontend:
  "e \<in> set (fst (killProcessOnPort plat nan run p)) \<Longrightarrow> \<not> isFrontendSpawn e"
  by (auto simp: killProcessOnPort_def Let_def split: child_end.splits option.splits if_splits)

lemma failedPoll_no_frontend:
  "e \<in> set (failedPoll url i) \<Longrightarrow> \<not> isFrontendSpawn e"
  by (auto simp: failedPoll_def split: if_splits)

lemma killProcessOnPort_resolves:
  "ending run \<noteq> NeverCloses \<Longrightarrow> snd (killProcessOnPort plat nan run p) = Resolved"
  by (auto simp: killProcessOnPort_def Let_def split: child_end.splits option.splits)


lemma waitForBackend_all_fail:
  assumes "\<And>i. i < 30 \<Longrightarrow> \<not> health i"
  shows "waitForBackend health url None =
           (concat (map (failedPoll url) [0..<30])
            @ [Log ''STARTUP'' ''Backend failed to start within 30 seconds'' red], False)"
  unfolding waitForBackend_def dflt_def using assms
  by (simp add: waitLoop_all_fail)

lemma startChildren_all_fail:
  assumes "\<And>i. i < 30 \<Longrightarrow> \<not> healthProbe w i"
  shows "startChildren w bp fp =
           ([Log ''BACKEND'' ''Starting backend server...'' blue,
             Spawn ''npm'' [''run'', ''dev'']
               [(''BACKEND_PORT'', showInt bp),
                (''FRONT_END_URL'', ''http://localhost:'' @ showInt fp)]]
            @ concat (map (failedPoll (''http://localhost:'' @ showInt bp)) [0..<30])
            @ [Log ''STARTUP'' ''Backend failed to start within 30 seconds'' red,
               Log ''STARTUP'' ''Failed to start backend, aborting...'' red,
               ChildKill (backendPid w) ''SIGTERM'',
               Exit 1], Exited 1)"
  unfolding startChildren_def Let_def
  by (simp only: waitForBackend_all_fail [OF assms]) simp

text \<open>
  Claim C2. If the health probe of the backend fails on all 30 attempts, polled one
  second apart, the supervisor terminates the backend child, the process exits with
  status 1, and the frontend child is never spawned. The theorem gives the whole run:
  the ports are allocated and reclaimed, the backend is spawned, 30 polls fail, each
  followed by a wait of one second, and the run ends with the kill of the backend and
  \<open>process.exit(1)\<close>; no effect of the run is the spawn of the frontend. The
  hypotheses say that the allocation returns and that both lookup commands of the
  start-up reclamation end.
\<close>

theorem health_timeout_aborts:
  assumes ports: "findFreePorts (portProbe w) startOptions = Inr pa"
    and l0: "ending (lookupRuns w 0) \<noteq> NeverCloses"
    and l1: "ending (lookupRuns w 1) \<noteq> NeverCloses"
    and dead: "\<forall>i<30. \<not> healthProbe w i"
  shows "startServices w =
           ([Log ''STARTUP'' ''Starting SnapTrade Admin Panel...'' bright,
             Log ''CLEANUP'' ''Checking for existing processes on ports...'' cyan]
            @ fst (killProcessOnPort (processPlatform w) (jsIsNaN w) (lookupRuns w 0)
                     (backendPort pa))
            @ fst (killProcessOnPort (processPlatform w) (jsIsNaN w) (lookupRuns w 1)
                     (frontendPort pa))
            @ [Log ''CLEANUP'' ''Port cleanup complete'' cyan,
               Log ''BACKEND'' ''Starting backend server...'' blue,
               Spawn ''npm'' [''run'', ''dev'']
                 [(''BACKEND_PORT'', showInt (backendPort pa)),
                  (''FRONT_END_URL'', ''http://localhost:'' @ showInt (frontendPort pa))]]
            @ concat (map (failedPoll (''http://localhost:'' @ showInt (backendPort pa)))
                        [0..<30])
            @ [Log ''STARTUP'' ''Backend failed to start within 30 seconds'' red,
               Log ''STARTUP'' ''Failed to start backend, aborting...'' red,
               ChildKill (backendPid w) ''SIGTERM'',
               Exit 1], Exited 1)
         \<and> (\<forall>e \<in> set (fst (startServices w)). \<not> isFrontendSpawn e)"
proof -
  let ?k1 = "killProcessOnPort (processPlatform w) (jsIsNaN w) (lookupRuns w 0) (backendPort pa)"
  let ?k2 = "killProcessOnPort (processPlatform w) (jsIsNaN w) (lookupRuns w 1) (frontendPort pa)"
  have r1: "snd ?k1 = Resolved" using l0 by (rule killProcessOnPort_resolves)
  have r2: "snd ?k2 = Resolved" using l1 by (rule killProcessOnPort_resolves)
  have run: "startServices w =
           ([Log ''STARTUP'' ''Starting SnapTrade Admin Panel...'' bright,
             Log ''CLEANUP'' ''Checking for existing processes on ports...'' cyan]
            @ fst ?k1 @ fst ?k2
            @ [Log ''CLEANUP'' ''Port cleanup complete'' cyan,
               Log ''BACKEND'' ''Starting backend server...'' blue,
               Spawn ''npm'' [''run'', ''dev'']
                 [(''BACKEND_PORT'', showInt (backendPort pa)),
                  (''FRONT_END_URL'', ''http://localhost:'' @ showInt (frontendPort pa))]]
            @ concat (map (failedPoll (''http://localhost:'' @ showInt (backendPort pa)))
                        [0..<30])
            @ [Log ''STARTUP'' ''Backend failed to start within 30 seconds'' red,
               Log ''STARTUP'' ''Failed to start backend, aborting...'' red,
               ChildKill (backendPid w) ''SIGTERM'',
               Exit 1], Exited 1)"
  proof -
    have r2': "snd (killProcessOnPort (processPlatform w) (jsIsNaN w) (lookupRuns w (Suc 0))
                 (frontendPort pa)) = Resolved"
      using r2 by simp
    show ?thesis
      unfolding startServices_def Let_def
      using dead by (simp add: ports r1 r2' startChildren_all_fail)
  qed
  have "\<not> isFrontendSpawn e" if "e \<in> set (fst (startServices w))" for e
    using that killProcessOnPort_no_frontend [of e] failedPoll_no_frontend [of e]
    unfolding run by auto
  with run show ?thesis by blast
qed

text \<open>The witness: a Linux host with every port free and a backend that never answers.\<close>

theorem health_timeout_aborts_witness:
  "findFreePorts (portProbe deadBackend) startOptions
     = Inr \<lparr>backendPort = 3005, frontendPort = 3000\<rparr>
   \<and> snd (startServices deadBackend) = Exited 1
   \<and> filter isFrontendSpawn (fst (startServices deadBackend)) = []
   \<and> length (filter (\<lambda>e. e = HttpGet ''http://localhost:3005/api/status'')
               (fst (startServices deadBackend))) = 30"
proof -
  have ports: "findFreePorts (portProbe deadBackend) startOptions
     = Inr \<lparr>backendPort = 3005, frontendPort = 3000\<rparr>"
    by (simp add: findFreePorts_def findFreePort_def startOptions_def dflt_def deadBackend_def)
  have l: "ending (lookupRuns deadBackend 0) \<noteq> NeverCloses"
          "ending (lookupRuns deadBackend 1) \<noteq> NeverCloses"
    by (simp_all add: deadBackend_def nothingFound_def)
  have dead: "\<forall>i<30. \<not> healthProbe deadBackend i"
    by (simp add: deadBackend_def)
  note inst = health_timeout_aborts [OF ports l dead]
  have none: "filter isFrontendSpawn (fst (startServices deadBackend)) = []"
    using inst [THEN conjunct2] by (simp only: filter_empty_conv)
  have polls: "length (filter (\<lambda>e. e = HttpGet ''http://localhost:3005/api/status'')
               (fst (startServices deadBackend))) = 30"
    using inst [THEN conjunct1]
    by (simp add: killProcessOnPort_def deadBackend_def nothingFound_def failedPoll_def
          showInt_def showNat.simps digitChar_def upt_rec)
  from ports inst [THEN conjunct1] none polls show ?thesis by simp
qed

subsection \<open>Shutdown happens once\<close>

text \<open>
  When \<open>startServices\<close> leaves the supervisor running, the latch is open, no child was
  killed, and the ports are the allocated ones: the state that the theorem on shutdown
  starts from.
\<close>

lemma startChildren_Running:
  "snd (startChildren w bp fp) = Running sv \<Longrightarrow>
   \<not> shuttingDown sv \<and> \<not> killed (frontend sv) \<and> \<not> killed (backend sv)
   \<and> pid (backend sv) = backendPid w \<and> pid (frontend sv) = frontendPid w
   \<and> BACKEND_PORT sv = bp \<and> FRONTEND_PORT sv = fp"
  by (auto simp: startChildren_def Let_def split: if_splits)

lemma startServices_Running:
  assumes "snd (startServices w) = Running sv"
  shows "\<not> shuttingDown sv \<and> \<not> killed (frontend sv) \<and> \<not> killed (backend sv)
   \<and> pid (backend sv) = backendPid w \<and> pid (frontend sv) = frontendPid w
   \<and> findFreePorts (portProbe w) startOptions
       = Inr \<lparr>backendPort = BACKEND_PORT sv, frontendPort = FRONTEND_PORT sv\<rparr>"
proof -
  from assms obtain pa where pa: "findFreePorts (portProbe w) startOptions = Inr pa"
    and run: "snd (startChildren w (backendPort pa) (frontendPort pa)) = Running sv"
    by (auto simp: startServices_def Let_def split: sum.splits outcome.splits)
  from startChildren_Running [OF run] pa show ?thesis
    by (cases pa) simp
qed

lemma killChildTree_alive:
  "\<not> killed c \<Longrightarrow> killChildTree plat (Some c) = [terminateChild plat (pid c)]"
  by (simp add: killChildTree_def terminateChild_def)

lemma step_Resume: "step w m Resume = resume w m"
  by (cases "phase m") (simp_all add: step_def resume_def)

lemma step_Deliver_latched: "shuttingDown (sup m) \<Longrightarrow> step w m (Deliver s) = m"
  by (cases "phase m") (simp_all add: step_def shutdown_def)

lemma resume_sup: "sup (resume w m) = sup m"
  by (simp add: resume_def Let_def split: phase.splits outcome.splits)

lemma resume_Serving: "phase m = Serving \<Longrightarrow> resume w m = m"
  by (simp add: resume_def)

lemma runMachine_Cons: "runMachine w m (i # ins) = runMachine w (step w m i) ins"
  by (simp add: runMachine_def)

lemma runMachine_latched:
  "shuttingDown (sup m) \<Longrightarrow>
   runMachine w m ins = (resume w ^^ length (filter (\<lambda>i. i = Resume) ins)) m"
proof (induction ins arbitrary: m)
  case Nil
  then show ?case by (simp add: runMachine_def)
next
  case (Cons i ins)
  show ?case
  proof (cases i)
    case (Deliver s)
    with Cons show ?thesis
      by (simp add: runMachine_Cons step_Deliver_latched)
  next
    case Resume
    have "shuttingDown (sup (resume w m))" using Cons.prems by (simp add: resume_sup)
    from Cons.IH [OF this] Resume show ?thesis
      by (simp add: runMachine_Cons step_Resume funpow_swap1)
  qed
qed

lemma runMachine_Serving:
  assumes "phase m = Serving" "\<not> shuttingDown (sup m)"
  shows "runMachine w m ins =
           (case firstSignal ins of
              None \<Rightarrow> m
            | Some s \<Rightarrow> (resume w ^^ resumesAfterSignal ins) (shutdown w s m))"
  using assms
proof (induction ins)
  case Nil
  then show ?case by (simp add: runMachine_def)
next
  case (Cons i ins)
  show ?case
  proof (cases i)
    case (Deliver s)
    have "shuttingDown (sup (shutdown w s m))"
      using Cons.prems by (simp add: shutdown_def)
    from runMachine_latched [OF this, of w ins] Deliver Cons.prems show ?thesis
      by (simp add: runMachine_Cons step_def)
  next
    case Resume
    with Cons show ?thesis
      by (simp add: runMachine_Cons step_Resume resume_Serving split: option.splits)
  qed
qed


lemma resume_AwaitGrace:
  "phase m = AwaitGrace \<Longrightarrow>
   resume w m =
     m\<lparr>phase := AwaitBackendReclaim
                  (snd (killProcessOnPort (processPlatform w) (jsIsNaN w) (lookupRuns w 2)
                          (BACKEND_PORT (sup m)))),
       trace := trace m
                @ fst (killProcessOnPort (processPlatform w) (jsIsNaN w) (lookupRuns w 2)
                         (BACKEND_PORT (sup m)))\<rparr>"
  by (simp add: resume_def Let_def)

lemma resume_AwaitBackend:
  "phase m = AwaitBackendReclaim Resolved \<Longrightarrow>
   resume w m =
     m\<lparr>phase := AwaitFrontendReclaim
                  (snd (killProcessOnPort (processPlatform w) (jsIsNaN w) (lookupRuns w 3)
                          (FRONTEND_PORT (sup m)))),
       trace := trace m
                @ fst (killProcessOnPort (processPlatform w) (jsIsNaN w) (lookupRuns w 3)
                         (FRONTEND_PORT (sup m)))\<rparr>"
  by (simp add: resume_def Let_def)

lemma resume_AwaitFrontend:
  "phase m = AwaitFrontendReclaim Resolved \<Longrightarrow>
   resume w m =
     m\<lparr>phase := Finished 0,
       trace := trace m
                @ [Log ''STARTUP'' ''Shutdown complete. Ports released.'' cyan, Exit 0]\<rparr>"
  by (simp add: resume_def)

lemma resume_stuck:
  "phase m = AwaitBackendReclaim Pending \<or> phase m = AwaitFrontendReclaim Pending
   \<or> phase m = Crashed \<or> phase m = Finished c \<Longrightarrow> resume w m = m"
  by (auto simp: resume_def)

lemma funpow_fixed: "f x = x \<Longrightarrow> (f ^^ n) x = x"
  by (induction n) simp_all

lemma killProcessOnPort_never_rejects:
  "snd (killProcessOnPort plat nan run p) \<noteq> Rejected msg"
  by (simp add: killProcessOnPort_def Let_def split: child_end.splits option.splits)

lemma killProcessOnPort_outcome:
  "snd (killProcessOnPort plat nan run p) = Resolved
   \<or> snd (killProcessOnPort plat nan run p) = Pending"
  using killProcessOnPort_never_rejects [of plat nan run p]
  by (cases "snd (killProcessOnPort plat nan run p)") auto

text \<open>The machine after the first signal and \<open>k\<close> resumptions.\<close>

lemma teardown_progress:
  assumes alive: "\<not> killed (frontend (sup m))" "\<not> killed (backend (sup m))"
    and latch: "\<not> shuttingDown (sup m)"
  shows "trace ((resume w ^^ k) (shutdown w s m))
           = trace m @ take (performed w (sup m) k) (teardown w (sup m) s)
         \<and> (performed w (sup m) k = length (teardown w (sup m) s)
              \<longrightarrow> phase ((resume w ^^ k) (shutdown w s m)) = Finished 0)"
proof -
  define kb where "kb = killProcessOnPort (processPlatform w) (jsIsNaN w) (lookupRuns w 2)
               (BACKEND_PORT (sup m))"
  define kf where "kf = killProcessOnPort (processPlatform w) (jsIsNaN w) (lookupRuns w 3)
               (FRONTEND_PORT (sup m))"
  define H where "H = [Log ''STARTUP'' (''Shutting down services ('' @ signalName s @ '')...'') cyan,
             terminateChild (processPlatform w) (pid (frontend (sup m))),
             terminateChild (processPlatform w) (pid (backend (sup m))),
             Sleep 1500]"
  define E where "E = [Log ''STARTUP'' ''Shutdown complete. Ports released.'' cyan, Exit 0]"
  define sv where "sv = (sup m)\<lparr>shuttingDown := True\<rparr>"
  define m0 where "m0 = m\<lparr>sup := sv, phase := AwaitGrace, trace := trace m @ H\<rparr>"
  define m1 where "m1 = m\<lparr>sup := sv, phase := AwaitBackendReclaim (snd kb),
                 trace := trace m @ H @ fst kb\<rparr>"
  define m2 where "m2 = m\<lparr>sup := sv, phase := AwaitFrontendReclaim (snd kf),
                 trace := trace m @ H @ fst kb @ fst kf\<rparr>"
  define m3 where "m3 = m\<lparr>sup := sv, phase := Finished 0,
                 trace := trace m @ H @ fst kb @ fst kf @ E\<rparr>"
  have lenH: "length H = 4" and lenE: "length E = 2" by (simp_all add: H_def E_def)
  have T: "teardown w (sup m) s = H @ fst kb @ fst kf @ E"
    by (simp add: teardown_def H_def E_def kb_def kf_def)
  have P: "performed w (sup m) k =
      (if k = 0 then 4
         else if k = 1 \<or> snd kb \<noteq> Resolved then 4 + length (fst kb)
         else if k = 2 \<or> snd kf \<noteq> Resolved then 4 + length (fst kb) + length (fst kf)
         else 4 + length (fst kb) + length (fst kf) + 2)"
    by (simp add: performed_def Let_def kb_def kf_def)
  have t0: "take 4 (H @ fst kb @ fst kf @ E) = H"
    and t1: "take (4 + length (fst kb)) (H @ fst kb @ fst kf @ E) = H @ fst kb"
    and t2: "take (4 + length (fst kb) + length (fst kf)) (H @ fst kb @ fst kf @ E)
               = H @ fst kb @ fst kf"
    and t3: "take (4 + length (fst kb) + length (fst kf) + 2) (H @ fst kb @ fst kf @ E)
               = H @ fst kb @ fst kf @ E"
    by (simp_all add: lenH lenE)
  have len: "length (H @ fst kb @ fst kf @ E) = 4 + length (fst kb) + length (fst kf) + 2"
    by (simp add: lenH lenE)
  have s0: "shutdown w s m = m0"
    using alive latch by (simp add: shutdown_def killChildTree_alive m0_def sv_def H_def)
  have r1: "resume w m0 = m1"
    by (simp add: resume_AwaitGrace m0_def m1_def kb_def sv_def)
  have r2: "resume w m1 = m2" if "snd kb = Resolved"
    using that by (simp add: resume_AwaitBackend m1_def m2_def kf_def sv_def)
  have r3: "resume w m2 = m3" if "snd kf = Resolved"
    using that by (simp add: resume_AwaitFrontend m2_def m3_def E_def)
  have out: "snd kb = Resolved \<or> snd kb = Pending" "snd kf = Resolved \<or> snd kf = Pending"
    unfolding kb_def kf_def by (rule killProcessOnPort_outcome)+
  have stuck1: "resume w m1 = m1" if "snd kb \<noteq> Resolved"
    using that out by (intro resume_stuck) (auto simp: m1_def)
  have stuck2: "resume w m2 = m2" if "snd kf \<noteq> Resolved"
    using that out by (intro resume_stuck) (auto simp: m2_def)
  have stuck3: "resume w m3 = m3"
    by (intro resume_stuck [where c = 0]) (simp add: m3_def)
  have tr: "trace m0 = trace m @ H" "trace m1 = trace m @ H @ fst kb"
    "trace m2 = trace m @ H @ fst kb @ fst kf" "trace m3 = trace m @ H @ fst kb @ fst kf @ E"
    "phase m3 = Finished 0"
    by (simp_all add: m0_def m1_def m2_def m3_def)
  consider (zero) "k = 0" | (one) "k = 1" | (two) "k = 2" | (more) j where "k = 3 + j"
    by (cases k rule: nat.exhaust; simp; metis One_nat_def Suc_1 add_Suc numeral_3_eq_3 nat.exhaust plus_nat.add_0)
  then show ?thesis
  proof cases
    case zero
    then show ?thesis unfolding T P s0 by (simp add: tr lenH lenE t0 len)
  next
    case one
    then show ?thesis unfolding T P s0 using r1 by (simp add: tr lenH lenE t1 len)
  next
    case two
    have k2: "(resume w ^^ k) m0 = resume w m1"
      unfolding two using r1 by (simp add: numeral_2_eq_2)
    show ?thesis
    proof (cases "snd kb = Resolved")
      case True
      with k2 r2 two show ?thesis unfolding T P s0 by (simp add: tr lenH lenE t2 len)
    next
      case False
      with k2 stuck1 two show ?thesis unfolding T P s0 by (simp add: tr lenH lenE t1 len)
    qed
  next
    case more
    have k3: "(resume w ^^ k) m0 = (resume w ^^ j) (resume w (resume w m1))"
      unfolding more using r1 by (simp add: numeral_3_eq_3 funpow_add funpow_swap1)
    show ?thesis
    proof (cases "snd kb = Resolved")
      case False
      with k3 stuck1 more show ?thesis unfolding T P s0
        by (simp add: tr lenH lenE t1 len funpow_fixed)
    next
      case kbr: True
      show ?thesis
      proof (cases "snd kf = Resolved")
        case False
        with k3 r2 kbr stuck2 more show ?thesis unfolding T P s0
          by (simp add: tr lenH lenE t2 len funpow_fixed)
      next
        case True
        with k3 r2 r3 kbr stuck3 more show ?thesis unfolding T P s0
          by (simp add: tr lenH lenE t3 len funpow_fixed)
      qed
    qed
  qed
qed


text \<open>
  Claim C3, as the code has it. The supervisor is running, as \<open>startServices\<close> leaves
  it: the latch is open and no child was killed. Then, whatever signals are delivered
  and however they interleave with the resumptions of a teardown in progress, the
  effects are those of a single teardown, the one of the first signal, up to the point
  that it has reached: every later call of \<open>shutdown\<close> adds nothing. Its order is the
  one of \<open>teardown\<close>: both children are told to stop (with SIGTERM, and on win32 with a
  forced kill of the process tree of each), then the wait of 1.5 seconds, then the
  reclamation of the backend port and of the frontend port, then the exit with status
  0. The teardown runs to that exit when it is resumed three times and the lookup
  commands of both reclamations end.
\<close>

theorem shutdown_once:
  assumes "phase m = Serving" and "\<not> shuttingDown (sup m)"
    and "\<not> killed (frontend (sup m))" and "\<not> killed (backend (sup m))"
  shows "trace (runMachine w m ins) =
           trace m @ (case firstSignal ins of
                        None \<Rightarrow> []
                      | Some s \<Rightarrow> take (performed w (sup m) (resumesAfterSignal ins))
                                    (teardown w (sup m) s))
         \<and> (\<forall>s. firstSignal ins = Some s \<and> 3 \<le> resumesAfterSignal ins
                  \<and> ending (lookupRuns w 2) \<noteq> NeverCloses
                  \<and> ending (lookupRuns w 3) \<noteq> NeverCloses
              \<longrightarrow> trace (runMachine w m ins) = trace m @ teardown w (sup m) s
                  \<and> phase (runMachine w m ins) = Finished 0)"
proof (cases "firstSignal ins")
  case None
  with assms show ?thesis by (simp add: runMachine_Serving)
next
  case (Some s)
  let ?k = "resumesAfterSignal ins"
  have run: "runMachine w m ins = (resume w ^^ ?k) (shutdown w s m)"
    using assms Some by (simp add: runMachine_Serving)
  note prog = teardown_progress [OF assms(3,4,2), where w = w and k = ?k and s = s]
  have full: "performed w (sup m) ?k = length (teardown w (sup m) s)"
    if "3 \<le> ?k" "ending (lookupRuns w 2) \<noteq> NeverCloses"
       "ending (lookupRuns w 3) \<noteq> NeverCloses"
    using that
    by (simp add: performed_def Let_def teardown_def killProcessOnPort_resolves)
  show ?thesis
    using Some prog full unfolding run by auto
qed

text \<open>
  The witness: SIGINT and SIGTERM arrive together on a Linux host, before the grace
  wait is over.
\<close>

theorem shutdown_once_witness:
  "runMachine deadBackend serving [Deliver SIGINT, Deliver SIGTERM, Resume, Resume, Resume]
   = serving
      \<lparr>sup := (sup serving)\<lparr>shuttingDown := True\<rparr>,
       phase := Finished 0,
       trace :=
         [Log ''STARTUP'' ''Shutting down services (SIGINT)...'' cyan,
          ChildKill 4002 ''SIGTERM'',
          ChildKill 4001 ''SIGTERM'',
          Sleep 1500,
          Spawn ''lsof'' [''-ti'', ''tcp:3005''] [],
          Spawn ''lsof'' [''-ti'', ''tcp:3000''] [],
          Log ''STARTUP'' ''Shutdown complete. Ports released.'' cyan,
          Exit 0]\<rparr>"
proof -
  let ?ins = "[Deliver SIGINT, Deliver SIGTERM, Resume, Resume, Resume]"
  have init: "phase serving = Serving" "\<not> shuttingDown (sup serving)"
    "\<not> killed (frontend (sup serving))" "\<not> killed (backend (sup serving))"
    by (simp_all add: serving_def)
  have hyp: "firstSignal ?ins = Some SIGINT \<and> 3 \<le> resumesAfterSignal ?ins
             \<and> ending (lookupRuns deadBackend 2) \<noteq> NeverCloses
             \<and> ending (lookupRuns deadBackend 3) \<noteq> NeverCloses"
    by (simp add: deadBackend_def nothingFound_def)
  from shutdown_once [OF init, where w = deadBackend and ins = ?ins] hyp
  have fin: "trace (runMachine deadBackend serving ?ins)
               = trace serving @ teardown deadBackend (sup serving) SIGINT"
    "phase (runMachine deadBackend serving ?ins) = Finished 0"
    by blast+
  have td: "trace serving @ teardown deadBackend (sup serving) SIGINT =
         [Log ''STARTUP'' ''Shutting down services (SIGINT)...'' cyan,
          ChildKill 4002 ''SIGTERM'',
          ChildKill 4001 ''SIGTERM'',
          Sleep 1500,
          Spawn ''lsof'' [''-ti'', ''tcp:3005''] [],
          Spawn ''lsof'' [''-ti'', ''tcp:3000''] [],
          Log ''STARTUP'' ''Shutdown complete. Ports released.'' cyan,
          Exit 0]"
    by (simp add: teardown_def serving_def deadBackend_def nothingFound_def signalName_def
          terminateChild_def killProcessOnPort_def showInt_def showNat.simps digitChar_def)
  have sv: "sup (runMachine deadBackend serving ?ins) = (sup serving)\<lparr>shuttingDown := True\<rparr>"
    by (simp add: runMachine_def step_def shutdown_def resume_def serving_def Let_def
          killProcessOnPort_def deadBackend_def nothingFound_def)
  show ?thesis
    using fin td sv by (cases "runMachine deadBackend serving ?ins") (simp add: serving_def)
qed

text \<open>
  The claim as stated, with a graceful terminate of both children in every run, fails on
  win32: no signal is sent to a child there, each process tree is killed by force.
\<close>

theorem shutdown_graceful_counterexample:
  "trace (runMachine windowsHost serving [Deliver SIGINT]) =
     [Log ''STARTUP'' ''Shutting down services (SIGINT)...'' cyan,
      Spawn ''taskkill'' [''/PID'', ''4002'', ''/T'', ''/F''] [],
      Spawn ''taskkill'' [''/PID'', ''4001'', ''/T'', ''/F''] [],
      Sleep 1500]"
  by (simp add: runMachine_def step_def shutdown_def serving_def windowsHost_def
        deadBackend_def killChildTree_def signalName_def showNat.simps digitChar_def)


subsection \<open>Port reclamation\<close>

text \<open>
  Claim C7 says that on a POSIX platform every process that holds the port is sent the
  kill signal. The code joins the trimmed output of \<open>lsof\<close> into one string and passes
  it to \<open>kill\<close> as a single argument. When \<open>lsof\<close> lists two processes, 123 and 456,
  that argument is the two ids with the line break between them, which is the id of
  neither.
\<close>

theorem killProcessOnPort_two_listeners:
  "killProcessOnPort ''linux'' (\<lambda>s. False) twoListeners 3000 =
     ([Spawn ''lsof'' [''-ti'', ''tcp:3000''] [],
       Log ''CLEANUP'' (''Killing process 123'' @ [CHR 0x0A] @ ''456 on port 3000'') yellow,
       Spawn ''kill'' [''-9'', ''123'' @ [CHR 0x0A] @ ''456''] [],
       Sleep 1000], Resolved)
   \<and> splitNewline [] (trim (concat (chunks twoListeners))) = [''123'', ''456'']"
  by (simp add: killProcessOnPort_def twoListeners_def trim_def isSpace_def
        showInt_def showNat.simps digitChar_def)

text \<open>
  Claim C8, as the code has it. The promise of \<open>killProcessOnPort\<close> is never rejected,
  and it resolves whenever the lookup command ends, by failing to start or by closing.
  A lookup that cannot be started, and one that finds no process on the port, have no
  effect beyond the spawn of the lookup itself: the promise resolves and nothing is
  logged.
\<close>

theorem killProcessOnPort_never_fails:
  "(\<forall>msg. snd (killProcessOnPort plat nan run p) \<noteq> Rejected msg)
   \<and> (ending run \<noteq> NeverCloses \<longrightarrow> snd (killProcessOnPort plat nan run p) = Resolved)
   \<and> (ending run = SpawnError \<longrightarrow>
         killProcessOnPort plat nan run p = ([lookupCommand plat p], Resolved))
   \<and> (plat \<noteq> ''win32'' \<and> ending run = Close code
        \<and> (code \<noteq> Some 0 \<or> concat (map trim (chunks run)) = []) \<longrightarrow>
         killProcessOnPort plat nan run p = ([lookupCommand plat p], Resolved))
   \<and> (plat = ''win32'' \<and> ending run = Close code
        \<and> findListener nan p (splitNewline [] (concat (chunks run))) = None \<longrightarrow>
         killProcessOnPort plat nan run p = ([lookupCommand plat p], Resolved))"
proof (intro conjI allI impI)
  fix msg
  show "snd (killProcessOnPort plat nan run p) \<noteq> Rejected msg"
    by (rule killProcessOnPort_never_rejects)
next
  assume "ending run \<noteq> NeverCloses"
  then show "snd (killProcessOnPort plat nan run p) = Resolved"
    by (rule killProcessOnPort_resolves)
next
  assume "ending run = SpawnError"
  then show "killProcessOnPort plat nan run p = ([lookupCommand plat p], Resolved)"
    by (simp add: killProcessOnPort_def lookupCommand_def)
next
  assume "plat \<noteq> ''win32'' \<and> ending run = Close code
        \<and> (code \<noteq> Some 0 \<or> concat (map trim (chunks run)) = [])"
  then show "killProcessOnPort plat nan run p = ([lookupCommand plat p], Resolved)"
    by (auto simp: killProcessOnPort_def lookupCommand_def)
next
  assume "plat = ''win32'' \<and> ending run = Close code
        \<and> findListener nan p (splitNewline [] (concat (chunks run))) = None"
  then show "killProcessOnPort plat nan run p = ([lookupCommand plat p], Resolved)"
    by (simp add: killProcessOnPort_def lookupCommand_def)
qed

text \<open>The witness: \<open>lsof\<close> finds nobody on port 3005.\<close>

theorem killProcessOnPort_never_fails_witness:
  "killProcessOnPort ''linux'' (\<lambda>s. False) nothingFound 3005
     = ([Spawn ''lsof'' [''-ti'', ''tcp:3005''] []], Resolved)"
proof -
  have hyp: "''linux'' \<noteq> ''win32'' \<and> ending nothingFound = Close (Some 1)
        \<and> (Some 1 \<noteq> Some (0::int) \<or> concat (map trim (chunks nothingFound)) = [])"
    by (simp add: nothingFound_def)
  have cmd: "lookupCommand ''linux'' 3005 = Spawn ''lsof'' [''-ti'', ''tcp:3005''] []"
    by (simp add: lookupCommand_def showInt_def showNat.simps digitChar_def)
  from killProcessOnPort_never_fails
         [where plat = "''linux''" and nan = "\<lambda>s. False" and run = nothingFound
            and p = 3005 and code = "Some 1"] hyp
  have "killProcessOnPort ''linux'' (\<lambda>s. False) nothingFound 3005
          = ([lookupCommand ''linux'' 3005], Resolved)"
    by blast
  then show ?thesis by (simp only: cmd)
qed

text \<open>
  The claim as stated has internal errors logged before they are swallowed. When the
  lookup command cannot be started, the run has no log entry at all.
\<close>

theorem killProcessOnPort_silent_counterexample:
  "killProcessOnPort ''linux'' (\<lambda>s. False) lookupFailed 3005
     = ([Spawn ''lsof'' [''-ti'', ''tcp:3005''] []], Resolved)
   \<and> filter isLog (fst (killProcessOnPort ''linux'' (\<lambda>s. False) lookupFailed 3005)) = []"
  by (simp add: killProcessOnPort_def lookupFailed_def showInt_def showNat.simps digitChar_def)

section \<open>Properties of the response normalizer\<close>

subsection \<open>Ticker extraction\<close>

text \<open>
  A candidate that is neither an object nor a string with something but white space in
  it is passed over. A candidate that is an object (or an array) is looked up under
  \<open>symbol\<close>, \<open>ticker\<close>, \<open>code\<close>, \<open>name\<close> and \<open>id\<close>, the first truthy one of which
  decides.
\<close>

lemma trim_Nil: "trim [] = []"
  by (simp add: trim_def)

lemma firstString_skip:
  assumes "\<not> (truthy t \<and> isObjectType t)" and "\<forall>s. t = JStr s \<longrightarrow> trim s = []"
  shows "firstString (t # cs) = firstString cs"
  using assms by (cases t) simp_all

lemma orChain_five:
  "orChain [Inr a, Inr b, Inr c, Inr d, Inr e] =
     Inr (case find truthy [a, b, c, d, e] of None \<Rightarrow> e | Some v \<Rightarrow> v)"
  by simp

lemma firstString_object:
  assumes "truthy c" and "isObjectType c"
  shows "firstString (c # cs) =
           (case find truthy (map (ownProp c) [''symbol'', ''ticker'', ''code'', ''name'', ''id'']) of
              Some (JStr s) \<Rightarrow> if trim s \<noteq> [] then Inr (trim s) else firstString cs
            | _ \<Rightarrow> firstString cs)"
proof -
  have ns: "\<not> isString c" using assms by (cases c) simp_all
  have gp: "getProp c k = Inr (ownProp c k)" for k using assms by (cases c) simp_all
  let ?vs = "[ownProp c ''symbol'', ownProp c ''ticker'', ownProp c ''code'',
              ownProp c ''name'', ownProp c ''id'']"
  have step: "firstString (c # cs) =
      (case (case find truthy ?vs of None \<Rightarrow> ownProp c ''id'' | Some v \<Rightarrow> v) of
         JStr s \<Rightarrow> if trim s \<noteq> [] then Inr (trim s) else firstString cs
       | _ \<Rightarrow> firstString cs)"
    using assms ns by (simp only: firstString.simps gp orChain_five) (simp split: json.splits)
  show ?thesis
  proof (cases "find truthy ?vs")
    case None
    then have "\<not> truthy (ownProp c ''id'')" by (simp split: if_splits)
    then have "(case ownProp c ''id'' of
         JStr s \<Rightarrow> if trim s \<noteq> [] then Inr (trim s) else firstString cs
       | _ \<Rightarrow> firstString cs) = firstString cs"
      by (cases "ownProp c ''id''") (simp_all add: trim_Nil)
    with None step show ?thesis by simp
  next
    case (Some v)
    with step show ?thesis by (simp split: json.splits)
  qed
qed

text \<open>
  Claim C9. \<open>formatTicker\<close> applied to \<open>{symbol: {symbol: {symbol: "TSLA"}}}\<close> returns
  \<open>"TSLA"\<close>, because the candidate \<open>position.symbol.symbol\<close> is a structured value
  and the nested lookup over its fields \<open>symbol\<close>, \<open>ticker\<close>, \<open>code\<close>, \<open>name\<close>, \<open>id\<close>, in
  that order, yields the string. The theorem states the result on that record, and the
  mechanism for every candidate list and every position:
  \<^item> a candidate \<open>c\<close> that is an object or an array yields the first truthy one of
    \<open>c.symbol\<close>, \<open>c.ticker\<close>, \<open>c.code\<close>, \<open>c.name\<close>, \<open>c.id\<close>, trimmed, when that is a
    string with more than white space in it, and otherwise the search goes on with the
    remaining candidates;
  \<^item> for every position whose \<open>ticker\<close> is no usable candidate and whose
    \<open>symbol.symbol\<close> is such a structured value, the result of \<open>formatTicker\<close> is the
    string that the nested lookup finds there, whatever the later candidates hold;
  \<^item> a \<open>ticker\<close> that is a string with more than white space in it comes before
    every other candidate.
\<close>

theorem formatTicker_nested_lookup:
  "formatTicker tsla = Inr ''TSLA''
   \<and> (truthy c \<and> isObjectType c \<longrightarrow>
        firstString (c # cs) =
          (case find truthy (map (ownProp c) [''symbol'', ''ticker'', ''code'', ''name'', ''id'']) of
             Some (JStr s) \<Rightarrow> if trim s \<noteq> [] then Inr (trim s) else firstString cs
           | _ \<Rightarrow> firstString cs))
   \<and> (\<not> (truthy (optPath p [''ticker'']) \<and> isObjectType (optPath p [''ticker'']))
        \<and> (\<forall>s. optPath p [''ticker''] = JStr s \<longrightarrow> trim s = [])
        \<and> truthy (optPath p [''symbol'', ''symbol''])
        \<and> isObjectType (optPath p [''symbol'', ''symbol''])
        \<and> find truthy (map (ownProp (optPath p [''symbol'', ''symbol'']))
                           [''symbol'', ''ticker'', ''code'', ''name'', ''id'']) = Some (JStr t)
        \<and> trim t \<noteq> []
      \<longrightarrow> formatTicker p = Inr (trim t))
   \<and> (optPath p [''ticker''] = JStr u \<and> trim u \<noteq> [] \<longrightarrow> formatTicker p = Inr (trim u))"
proof (intro conjI impI)
  show "formatTicker tsla = Inr ''TSLA''"
    by (simp add: formatTicker_def tsla_def optPath_def trim_def isSpace_def)
next
  assume "truthy c \<and> isObjectType c"
  then show "firstString (c # cs) =
          (case find truthy (map (ownProp c) [''symbol'', ''ticker'', ''code'', ''name'', ''id'']) of
             Some (JStr s) \<Rightarrow> if trim s \<noteq> [] then Inr (trim s) else firstString cs
           | _ \<Rightarrow> firstString cs)"
    using firstString_object by blast
next
  assume h: "\<not> (truthy (optPath p [''ticker'']) \<and> isObjectType (optPath p [''ticker'']))
        \<and> (\<forall>s. optPath p [''ticker''] = JStr s \<longrightarrow> trim s = [])
        \<and> truthy (optPath p [''symbol'', ''symbol''])
        \<and> isObjectType (optPath p [''symbol'', ''symbol''])
        \<and> find truthy (map (ownProp (optPath p [''symbol'', ''symbol'']))
                           [''symbol'', ''ticker'', ''code'', ''name'', ''id'']) = Some (JStr t)
        \<and> trim t \<noteq> []"
  have sym: "\<not> isString (optPath p [''symbol''])"
  proof
    assume "isString (optPath p [''symbol''])"
    then obtain s where "optPath p [''symbol''] = JStr s"
      by (cases "optPath p [''symbol'']") simp_all
    then have "optPath p [''symbol'', ''symbol''] = JUndefined"
      by (simp add: optPath_def)
    with h show False by simp
  qed
  have skip: "firstString (optPath p [''ticker''] # cs') = firstString cs'" for cs'
    using h by (intro firstString_skip) blast+
  have obj: "firstString (optPath p [''symbol'', ''symbol''] # cs') = Inr (trim t)" for cs'
    using h firstString_object [of "optPath p [''symbol'', ''symbol'']" cs'] by simp
  show "formatTicker p = Inr (trim t)"
    unfolding formatTicker_def using sym by (simp only: if_False sum.case skip obj)
next
  assume h: "optPath p [''ticker''] = JStr u \<and> trim u \<noteq> []"
  have "getProp p ''symbol'' = Inr (ownProp p ''symbol'')"
    using h by (cases p) (simp_all add: optPath_def)
  with h show "formatTicker p = Inr (trim u)"
    by (simp add: formatTicker_def)
qed

text \<open>
  The witness: in \<open>{symbol: {symbol: {id: "uuid-1", symbol: "", ticker: " MSFT "}}}\<close>
  the empty \<open>symbol\<close> is passed over, and \<open>ticker\<close> comes before \<open>id\<close>.
\<close>

theorem formatTicker_nested_lookup_witness:
  "formatTicker msftNested = Inr ''MSFT''"
proof -
  have sub: "optPath msftNested [''symbol'', ''symbol'']
               = JObj [(''id'', JStr ''uuid-1''), (''symbol'', JStr []),
                       (''ticker'', JStr '' MSFT '')]"
    and tick: "optPath msftNested [''ticker''] = JUndefined"
    by (simp_all add: msftNested_def optPath_def)
  have tr: "trim '' MSFT '' = ''MSFT''"
    by (simp add: trim_def isSpace_def)
  have hyp: "\<not> (truthy (optPath msftNested [''ticker''])
               \<and> isObjectType (optPath msftNested [''ticker'']))
        \<and> (\<forall>s. optPath msftNested [''ticker''] = JStr s \<longrightarrow> trim s = [])
        \<and> truthy (optPath msftNested [''symbol'', ''symbol''])
        \<and> isObjectType (optPath msftNested [''symbol'', ''symbol''])
        \<and> find truthy (map (ownProp (optPath msftNested [''symbol'', ''symbol'']))
                           [''symbol'', ''ticker'', ''code'', ''name'', ''id''])
            = Some (JStr '' MSFT '')
        \<and> trim '' MSFT '' \<noteq> []"
    unfolding sub tick tr by simp
  from formatTicker_nested_lookup [where p = msftNested and t = "'' MSFT ''"] hyp
  have "formatTicker msftNested = Inr (trim '' MSFT '')" by blast
  then show ?thesis by (simp only: tr)
qed

subsection \<open>normalizeHoldingsResponse\<close>

lemma getProp_truthy: "truthy x \<Longrightarrow> getProp x k = Inr (ownProp x k)"
  by (cases x) simp_all

lemma optProp_truthy: "truthy x \<Longrightarrow> optProp x k = ownProp x k"
  by (cases x) simp_all

lemma normalize_truthy:
  assumes "truthy x"
  shows "normalizeHoldingsResponse x =
     Inr \<lparr>accounts =
            (case find truthy [ownProp x ''accounts'', ownProp x ''brokerageAccounts''] of
               None \<Rightarrow> JArr [] | Some a \<Rightarrow> a),
          positions =
            (case find truthy
                    [optPath x [''data'', ''positions''],
                     optPath x [''data'', ''holdings''],
                     optPath x [''data'', ''results''],
                     optPath x [''data''],
                     ownProp x ''holdings'',
                     ownProp x ''positions'',
                     ownProp x ''accountHoldings'',
                     ownProp x ''results'',
                     x] of
               None \<Rightarrow> JArr []
             | Some v \<Rightarrow> if isArray v then v else JArr []),
          raw = Some x\<rparr>"
proof -
  have acc: "orChain [getProp x ''accounts'', getProp x ''brokerageAccounts'', Inr (JArr [])]
      = Inr (case find truthy [ownProp x ''accounts'', ownProp x ''brokerageAccounts''] of
               None \<Rightarrow> JArr [] | Some a \<Rightarrow> a)"
    using assms by (simp add: getProp_truthy)
  have pos: "orChain [Inr (optPath x [''data'', ''positions'']),
                            Inr (optPath x [''data'', ''holdings'']),
                            Inr (optPath x [''data'', ''results'']),
                            Inr (optPath x [''data'']),
                            getProp x ''holdings'',
                            getProp x ''positions'',
                            getProp x ''accountHoldings'',
                            getProp x ''results'',
                            Inr x,
                            Inr (JArr [])]
      = Inr (case find truthy
                    [optPath x [''data'', ''positions''],
                     optPath x [''data'', ''holdings''],
                     optPath x [''data'', ''results''],
                     optPath x [''data''],
                     ownProp x ''holdings'',
                     ownProp x ''positions'',
                     ownProp x ''accountHoldings'',
                     ownProp x ''results'',
                     x] of
               None \<Rightarrow> JArr [] | Some v \<Rightarrow> v)"
    using assms by (simp add: getProp_truthy)
  show ?thesis
    unfolding normalizeHoldingsResponse_def acc pos using assms
    by (simp split: option.splits)
qed


lemma optProp_falsy: "\<not> truthy v \<Longrightarrow> optProp v k = JUndefined"
  by (cases v) simp_all

text \<open>
  Claim C4, as the code has it. For every value \<open>x\<close>, \<open>normalizeHoldingsResponse\<close>
  returns without throwing, and \<open>positions\<close> of the result is an array. When \<open>x\<close> is
  truthy, \<open>raw\<close> is \<open>x\<close>; when \<open>x\<close> is falsy (\<open>null\<close>, \<open>undefined\<close>, \<open>false\<close>, 0, the
  empty string) the early return gives empty \<open>accounts\<close> and \<open>positions\<close> and an object
  without a \<open>raw\<close> property. \<open>accounts\<close> is an array whenever the field it is taken from
  holds one, or neither field is truthy. When none of the recognised fields is truthy
  and \<open>x\<close> is not itself an array, \<open>accounts\<close> and \<open>positions\<close> are empty; on \<open>{}\<close>
  the result is \<open>{accounts: [], positions: [], raw: {}}\<close>.
\<close>

theorem normalizeHoldingsResponse_total:
  "(\<exists>r. normalizeHoldingsResponse x = Inr r
        \<and> isArray (positions r)
        \<and> raw r = (if truthy x then Some x else None)
        \<and> (\<not> truthy x \<longrightarrow> accounts r = JArr [] \<and> positions r = JArr [])
        \<and> ((\<forall>a. find truthy [ownProp x ''accounts'', ownProp x ''brokerageAccounts'']
                    = Some a \<longrightarrow> isArray a)
             \<longrightarrow> isArray (accounts r))
        \<and> ((\<forall>k \<in> set [''accounts'', ''brokerageAccounts'', ''data'', ''holdings'',
                         ''positions'', ''accountHoldings'', ''results''].
                \<not> truthy (ownProp x k)) \<and> \<not> isArray x
             \<longrightarrow> accounts r = JArr [] \<and> positions r = JArr []))
   \<and> normalizeHoldingsResponse (JObj [])
       = Inr \<lparr>accounts = JArr [], positions = JArr [], raw = Some (JObj [])\<rparr>"
proof
  show "\<exists>r. normalizeHoldingsResponse x = Inr r
        \<and> isArray (positions r)
        \<and> raw r = (if truthy x then Some x else None)
        \<and> (\<not> truthy x \<longrightarrow> accounts r = JArr [] \<and> positions r = JArr [])
        \<and> ((\<forall>a. find truthy [ownProp x ''accounts'', ownProp x ''brokerageAccounts'']
                    = Some a \<longrightarrow> isArray a)
             \<longrightarrow> isArray (accounts r))
        \<and> ((\<forall>k \<in> set [''accounts'', ''brokerageAccounts'', ''data'', ''holdings'',
                         ''positions'', ''accountHoldings'', ''results''].
                \<not> truthy (ownProp x k)) \<and> \<not> isArray x
             \<longrightarrow> accounts r = JArr [] \<and> positions r = JArr [])"
  proof (cases "truthy x")
    case False
    then show ?thesis by (simp add: normalizeHoldingsResponse_def)
  next
    case True
    have nodata: "optPath x [''data'', k] = JUndefined \<and> optPath x [''data''] = ownProp x ''data''"
      if "\<not> truthy (ownProp x ''data'')" for k
      using that True by (simp add: optPath_def optProp_truthy optProp_falsy)
    show ?thesis
      unfolding normalize_truthy [OF True] using True
      by (auto simp: nodata split: option.splits if_splits)
  qed
next
  show "normalizeHoldingsResponse (JObj [])
       = Inr \<lparr>accounts = JArr [], positions = JArr [], raw = Some (JObj [])\<rparr>"
    by (simp add: normalizeHoldingsResponse_def optPath_def)
qed

text \<open>The witness: an object with no recognised field.\<close>

theorem normalizeHoldingsResponse_total_witness:
  "normalizeHoldingsResponse (JObj [(''note'', JStr ''nothing here'')])
     = Inr \<lparr>accounts = JArr [], positions = JArr [],
            raw = Some (JObj [(''note'', JStr ''nothing here'')])\<rparr>"
proof -
  let ?x = "JObj [(''note'', JStr ''nothing here'')]"
  have hyp: "(\<forall>k \<in> set [''accounts'', ''brokerageAccounts'', ''data'', ''holdings'',
                         ''positions'', ''accountHoldings'', ''results''].
                \<not> truthy (ownProp ?x k)) \<and> \<not> isArray ?x"
    by simp
  from normalizeHoldingsResponse_total [of ?x] hyp
  obtain r where r: "normalizeHoldingsResponse ?x = Inr r"
    and "raw r = Some ?x" "accounts r = JArr []" "positions r = JArr []"
    by auto
  then have "r = \<lparr>accounts = JArr [], positions = JArr [], raw = Some ?x\<rparr>"
    by (cases r) simp
  with r show ?thesis by simp
qed

text \<open>
  The claim as stated has \<open>raw\<close> equal to the input for every input. On \<open>null\<close> the
  result has no \<open>raw\<close> property.
\<close>

theorem normalizeHoldingsResponse_raw_counterexample:
  "normalizeHoldingsResponse JNull = Inr \<lparr>accounts = JArr [], positions = JArr [], raw = None\<rparr>"
  by (simp add: normalizeHoldingsResponse_def)

text \<open>
  Claim C5, as the code has it. For a truthy payload, \<open>positions\<close> is resolved from the
  first truthy candidate of the list below, in which the variants nested under \<open>data\<close>
  come first and the flat fields second, the payload itself being the last candidate.
  When that candidate is not an array, \<open>positions\<close> is the empty array. In both cases
  \<open>raw\<close> is the payload.
\<close>

theorem positions_nested_first:
  assumes "truthy x"
  shows "\<exists>r v. normalizeHoldingsResponse x = Inr r
           \<and> find truthy
                [optPath x [''data'', ''positions''],
                 optPath x [''data'', ''holdings''],
                 optPath x [''data'', ''results''],
                 optPath x [''data''],
                 ownProp x ''holdings'',
                 ownProp x ''positions'',
                 ownProp x ''accountHoldings'',
                 ownProp x ''results'',
                 x] = Some v
           \<and> positions r = (if isArray v then v else JArr [])
           \<and> raw r = Some x"
  unfolding normalize_truthy [OF assms] using assms by simp

text \<open>The witness: \<open>{results: [8], data: {holdings: [7]}}\<close> resolves to \<open>[7]\<close>.\<close>

theorem positions_nested_first_witness:
  "normalizeHoldingsResponse
     (JObj [(''results'', JArr [JNum 8]), (''data'', JObj [(''holdings'', JArr [JNum 7])])])
   = Inr \<lparr>accounts = JArr [], positions = JArr [JNum 7],
          raw = Some (JObj [(''results'', JArr [JNum 8]),
                            (''data'', JObj [(''holdings'', JArr [JNum 7])])])\<rparr>"
proof -
  let ?x = "JObj [(''results'', JArr [JNum 8]), (''data'', JObj [(''holdings'', JArr [JNum 7])])]"
  have t: "truthy ?x" by simp
  from positions_nested_first [OF t]
  obtain r v where r: "normalizeHoldingsResponse ?x = Inr r"
    and v: "find truthy
                [optPath ?x [''data'', ''positions''],
                 optPath ?x [''data'', ''holdings''],
                 optPath ?x [''data'', ''results''],
                 optPath ?x [''data''],
                 ownProp ?x ''holdings'',
                 ownProp ?x ''positions'',
                 ownProp ?x ''accountHoldings'',
                 ownProp ?x ''results'',
                 ?x] = Some v"
    and p: "positions r = (if isArray v then v else JArr [])" and w: "raw r = Some ?x"
    by blast
  from v have "v = JArr [JNum 7]" by (simp add: optPath_def)
  with p have "positions r = JArr [JNum 7]" by simp
  moreover have "accounts r = JArr []"
    using r by (auto simp: normalizeHoldingsResponse_def optPath_def)
  ultimately have "r = \<lparr>accounts = JArr [], positions = JArr [JNum 7], raw = Some ?x\<rparr>"
    using w by (cases r) simp
  with r show ?thesis by simp
qed

text \<open>
  The claim as stated has the flat fields consulted first. On
  \<open>{holdings: [1], data: {positions: [2]}}\<close> the flat field \<open>holdings\<close> holds an
  array, and \<open>positions\<close> is taken from \<open>data.positions\<close>.
\<close>

theorem positions_flat_first_counterexample:
  "normalizeHoldingsResponse nestedAndFlat
     = Inr \<lparr>accounts = JArr [], positions = JArr [JNum 2], raw = Some nestedAndFlat\<rparr>
   \<and> ownProp nestedAndFlat ''holdings'' = JArr [JNum 1]
   \<and> optPath nestedAndFlat [''data'', ''positions''] = JArr [JNum 2]"
  by (simp add: normalizeHoldingsResponse_def nestedAndFlat_def optPath_def)


section \<open>Properties of the backend user routes\<close>

text \<open>
  Claim C10, as the code has it. The handler of \<open>DELETE /api/users/:userId\<close> leaves the
  state of the backend as it is, whatever the remote service answers, so
  \<open>GET /api/users\<close> answers after the delete as it did before. A secret that a
  registration stored for a user is still in \<open>userSecrets\<close> after the delete of that
  user. For every user that the remote service lists, \<open>GET /api/users\<close> attaches what
  \<open>userSecrets.get(userId) || null\<close> gives: the stored secret when it is truthy, and
  \<open>null\<close> when it is falsy, as the empty string is.
\<close>

theorem deleteUser_keeps_secret:
  "snd (deleteUser u deleted s) = s
   \<and> getUsers listed (snd (deleteUser u deleted s)) = getUsers listed s
   \<and> (u \<noteq> [] \<and> (\<forall>ids. existing = Returned ids \<longrightarrow> u \<notin> set ids)
        \<and> getProp data ''userSecret'' = Inr secret
      \<longrightarrow> userSecrets (snd (postUsers (Some u) existing (Returned data) s0)) u = Some secret)
   \<and> (userSecrets s u = Some secret
      \<longrightarrow> userSecrets (snd (deleteUser u deleted s)) u = Some secret
          \<and> getUsers (Returned ids) (snd (deleteUser u deleted s))
              = (Response 200
                   (JArr (map (\<lambda>userId. JObj [(''userId'', JStr userId),
                                               (''userSecret'', secretOrNull s userId)]) ids)),
                 s)
          \<and> secretOrNull s u = (if truthy secret then secret else JNull))"
  by (auto simp: deleteUser_def postUsers_def getUsers_def secretOrNull_def
           split: upstream.splits)

text \<open>
  The witness: alice is registered, deleted, and still listed by the remote service.
\<close>

theorem deleteUser_keeps_secret_witness:
  "getUsers (Returned [''alice''])
     (snd (deleteUser ''alice'' (Returned JNull)
        (snd (postUsers (Some ''alice'') (Returned []) (Returned registered)
               \<lparr>userSecrets = Map.empty\<rparr>))))
   = (Response 200
        (JArr [JObj [(''userId'', JStr ''alice''), (''userSecret'', JStr ''s3cret'')]]),
      snd (postUsers (Some ''alice'') (Returned []) (Returned registered)
             \<lparr>userSecrets = Map.empty\<rparr>))"
proof -
  define s1 where "s1 = snd (postUsers (Some ''alice'') (Returned []) (Returned registered)
               \<lparr>userSecrets = Map.empty\<rparr>)"
  note inst = deleteUser_keeps_secret
         [where u = "''alice''" and deleted = "Returned JNull" and s = s1
            and secret = "JStr ''s3cret''" and ids = "[''alice'']"
            and existing = "Returned []" and data = registered
            and ?s0.0 = "\<lparr>userSecrets = Map.empty\<rparr>"
            and listed = "Returned [''alice'']"]
  have reg: "''alice'' \<noteq> [] \<and> (\<forall>ids. Returned [] = Returned ids \<longrightarrow> ''alice'' \<notin> set ids)
        \<and> getProp registered ''userSecret'' = Inr (JStr ''s3cret'')"
    by (simp add: registered_def)
  from inst reg have stored: "userSecrets s1 ''alice'' = Some (JStr ''s3cret'')"
    unfolding s1_def by blast
  from inst stored
  have "getUsers (Returned [''alice'']) (snd (deleteUser ''alice'' (Returned JNull) s1))
          = (Response 200
               (JArr (map (\<lambda>userId. JObj [(''userId'', JStr userId),
                                           (''userSecret'', secretOrNull s1 userId)])
                        [''alice''])), s1)"
    and "secretOrNull s1 ''alice''
           = (if truthy (JStr ''s3cret'') then JStr ''s3cret'' else JNull)"
    by blast+
  then show ?thesis unfolding s1_def by simp
qed

text \<open>
  The claim as stated has the stored secret attached for every user whose secret was
  stored at registration. When the remote service returns an empty secret, the map
  holds the empty string after the delete, and \<open>GET /api/users\<close> lists \<open>null\<close>.
\<close>

theorem deleteUser_blank_secret_counterexample:
  "userSecrets
     (snd (deleteUser ''alice'' (Returned JNull)
        (snd (postUsers (Some ''alice'') (Returned []) (Returned registeredBlank)
               \<lparr>userSecrets = Map.empty\<rparr>)))) ''alice'' = Some (JStr [])
   \<and> fst (getUsers (Returned [''alice''])
        (snd (deleteUser ''alice'' (Returned JNull)
           (snd (postUsers (Some ''alice'') (Returned []) (Returned registeredBlank)
                  \<lparr>userSecrets = Map.empty\<rparr>)))))
     = Response 200 (JArr [JObj [(''userId'', JStr ''alice''), (''userSecret'', JNull)]])"
  by (simp add: deleteUser_def postUsers_def getUsers_def secretOrNull_def registeredBlank_def)

end
